theory Spec2Isabelle
  imports Main "HOL-Library.AList"
begin

section \<open>The Ring location controller (plugins/ring/src/location.ts)\<close>

text \<open>
  A shallow embedding of \<^verbatim>\<open>RingLocationDevice\<close>: the object's fields are a record that
  every method takes and returns, rejected promises and thrown exceptions are \<open>Inl\<close>
  values, and everything the controller does to the outside world (vendor commands,
  the host registry call, console output, feed subscriptions) is appended to an
  effect log kept in the state.
\<close>

subsection \<open>JavaScript values used by the controller\<close>

datatype JSError = TypeError string | VendorError string

text \<open>
  A JavaScript \<^verbatim>\<open>Map\<close> object. Its entries live in the internal slot \<^verbatim>\<open>[[MapData]]\<close>, kept
  in insertion order; \<^verbatim>\<open>set\<close>, \<^verbatim>\<open>get\<close>, \<^verbatim>\<open>has\<close> and \<^verbatim>\<open>clear\<close> read and write that slot only.
  Like every object a \<^verbatim>\<open>Map\<close> also has own enumerable properties, which are what
  \<^verbatim>\<open>Object.values\<close> lists; the methods of \<^verbatim>\<open>Map\<close> never create one.
\<close>

record 'v JSMap =
  MapData :: "(string \<times> 'v) list"
  ownProperties :: "(string \<times> 'v) list"

definition new_Map :: "'v JSMap" where
  "new_Map = \<lparr>MapData = [], ownProperties = []\<rparr>"

definition Map_has :: "'v JSMap \<Rightarrow> string \<Rightarrow> bool" where
  "Map_has m k = (map_of (MapData m) k \<noteq> None)"

definition Map_get :: "'v JSMap \<Rightarrow> string \<Rightarrow> 'v option" where
  "Map_get m k = map_of (MapData m) k"

definition Map_set :: "'v JSMap \<Rightarrow> string \<Rightarrow> 'v \<Rightarrow> 'v JSMap" where
  "Map_set m k v = m\<lparr>MapData := AList.update k v (MapData m)\<rparr>"

definition Map_clear :: "'v JSMap \<Rightarrow> 'v JSMap" where
  "Map_clear m = m\<lparr>MapData := []\<rparr>"

text \<open>\<^verbatim>\<open>Map.prototype.values\<close> lists the values of the entries.\<close>

definition Map_values :: "'v JSMap \<Rightarrow> 'v list" where
  "Map_values m = map snd (MapData m)"

text \<open>\<^verbatim>\<open>Object.values\<close> lists the values of the own enumerable properties.\<close>

definition Object_values :: "'v JSMap \<Rightarrow> 'v list" where
  "Object_values m = map snd (ownProperties m)"

text \<open>\<^verbatim>\<open>String.prototype.endsWith\<close>.\<close>

definition endsWith :: "string \<Rightarrow> string \<Rightarrow> bool" where
  "endsWith s suffix =
     (length suffix \<le> length s \<and> drop (length s - length suffix) s = suffix)"

text \<open>The regular expression \<^verbatim>\<open>/^lock($|\.)/\<close>: the text \<^verbatim>\<open>lock\<close> at the start, followed
  by the end of the input or by a dot.\<close>

definition lock_regex_test :: "string \<Rightarrow> bool" where
  "lock_regex_test s =
     (take 4 s = ''lock'' \<and> (case drop 4 s of [] \<Rightarrow> True | c # _ \<Rightarrow> c = CHR ''.''))"

text \<open>\<^verbatim>\<open>Number.prototype.toString\<close> on a non-negative integer: its decimal digits.\<close>

fun toString :: "nat \<Rightarrow> string" where
  "toString n =
     (if n < 10 then [''0123456789'' ! n]
      else toString (n div 10) @ [''0123456789'' ! (n mod 10)])"

declare toString.simps [simp del]

subsection \<open>Enumerations of the Scrypted SDK\<close>

text \<open>
  \<^verbatim>\<open>SecuritySystemMode\<close> is a string enum of the SDK. A mode is kept as the string it is
  at run time, so that a caller can hand \<^verbatim>\<open>armSecuritySystem\<close> a value that is none of
  the four members.
\<close>

type_synonym SecuritySystemMode = string

definition Disarmed :: SecuritySystemMode where "Disarmed = ''Disarmed''"
definition HomeArmed :: SecuritySystemMode where "HomeArmed = ''HomeArmed''"
definition AwayArmed :: SecuritySystemMode where "AwayArmed = ''AwayArmed''"
definition NightArmed :: SecuritySystemMode where "NightArmed = ''NightArmed''"

datatype ScryptedDeviceType = DT_Camera | DT_Doorbell | DT_Sensor | DT_Lock

datatype ScryptedInterface =
    IF_Camera | IF_MotionSensor | IF_RTCSignalingChannel
  | IF_VideoCamera | IF_Intercom | IF_VideoClips
  | IF_Battery | IF_BinarySensor | IF_DeviceProvider
  | IF_TamperSensor | IF_EntrySensor | IF_FloodSensor | IF_Lock

record SecuritySystemState =
  mode :: SecuritySystemMode
  triggered :: bool
  supportedModes :: "SecuritySystemMode list"

record DeviceInfo =
  info_model :: string
  info_manufacturer :: string
  info_firmware :: "string option"
  info_serialNumber :: "string option"

text \<open>The descriptor \<^verbatim>\<open>Device\<close> handed to the host's device manager.\<close>

record Device =
  info :: DeviceInfo
  providerNativeId :: string
  nativeId :: string
  name :: string
  type :: ScryptedDeviceType
  interfaces :: "ScryptedInterface list"

subsection \<open>Vendor records (ring-client-api)\<close>

text \<open>
  The members of the enum \<^verbatim>\<open>RingDeviceType\<close> that the controller compares against. The
  enum is declared in ring-client-api, so its string values are a parameter of the
  model: every function that mentions a member takes the enum as its argument \<open>T\<close>.
\<close>

record RingDeviceType =
  ContactSensor :: string
  RetrofitZone :: string
  TiltSensor :: string
  MotionSensor :: string
  FloodFreezeSensor :: string
  WaterSensor :: string

type_synonym LocationMode = string

record RingDeviceData =
  deviceType :: string
  status :: string
  batteryStatus :: string
  serialNumber :: "string option"
  faulted :: bool

record RingDevice =
  device_id :: string
  device_name :: string
  device_data :: RingDeviceData

text \<open>
  Modelled from the spec: the declaration of the camera's \<^verbatim>\<open>data\<close> is not part of the
  sources. \<open>kind\<close>, \<open>firmware_version\<close> and \<open>camera_device_id\<close> are the fields the
  controller reads; \<open>camera_status\<close> is the status flag that the specification gives
  every vendor record, which the controller never reads on a camera.
\<close>

record CameraData =
  kind :: string
  firmware_version :: string
  camera_device_id :: string
  camera_status :: string

record RingCamera =
  camera_id :: nat
  camera_name :: string
  model :: string
  isRingEdgeEnabled :: bool
  operatingOnBattery :: bool
  isDoorbot :: bool
  hasLight :: bool
  hasSiren :: bool
  camera_data :: CameraData

text \<open>The values of the index \<^verbatim>\<open>locationDevices\<close>: \<^verbatim>\<open>RingDevice | RingCamera\<close>.\<close>

datatype LocationDevice = A_RingDevice RingDevice | A_RingCamera RingCamera

datatype VendorCommand =
    armAway "string list option"
  | armHome "string list option"
  | disarm

text \<open>
  The vendor's location handle \<^verbatim>\<open>this.location\<close>. The controller only reads it. The
  three queries are asynchronous in the source; the field holds what their promise
  settles to (\<open>Inl\<close> for a rejection). \<open>onLocationMode_replay\<close> lists the modes the mode
  feed delivers synchronously to a new subscriber (none for a plain subject), and
  \<open>command_result\<close> says how the promise of an arm or disarm command settles.
\<close>

record Location =
  location_id :: string
  cameras :: "RingCamera list"
  hasAlarmBaseStation :: bool
  onLocationMode_replay :: "LocationMode list"
  getSecurityPanel :: "JSError + unit"
  getLocationMode :: "JSError + LocationMode"
  getDevices :: "JSError + RingDevice list"
  command_result :: "VendorCommand \<Rightarrow> JSError option"

text \<open>\<^verbatim>\<open>plugin.settingsStorage.values\<close>, as far as the controller reads it.\<close>

record RingPlugin =
  nightModeBypassAlarmState :: string

subsection \<open>The controller's state\<close>

datatype DeviceClass = RingSensor | RingLock | RingCameraDevice

text \<open>A constructed leaf device. Its reference is its position in \<open>instances\<close>.\<close>

record Instance =
  instance_class :: DeviceClass
  instance_nativeId :: string
  instance_device :: "LocationDevice option"

datatype Feed = onLocationMode | panel_onData

datatype Effect =
    Subscribed Feed
  | VendorQuery string
  | VendorCall VendorCommand
  | onDevicesChanged string "Device list"
  | console_debug string
  | UnhandledRejection JSError

record RingLocationDevice =
  securitySystemState :: "SecuritySystemState option"
  devices :: "nat JSMap"
  locationDevices :: "LocationDevice JSMap"
  instances :: "Instance list"
  effects :: "Effect list"

definition emit :: "Effect \<Rightarrow> RingLocationDevice \<Rightarrow> RingLocationDevice" where
  "emit e s = s\<lparr>effects := effects s @ [e]\<rparr>"

subsection \<open>The security mode reconciler\<close>

text \<open>The closure \<^verbatim>\<open>updateLocationMode\<close> of the constructor (lines 71 to 95).\<close>

definition updateLocationMode ::
  "RingPlugin \<Rightarrow> LocationMode \<Rightarrow> RingLocationDevice \<Rightarrow> RingLocationDevice" where
  "updateLocationMode plugin f s =
     (let mode = (if f = ''away'' then AwayArmed
                  else if f = ''home'' then HomeArmed
                  else Disarmed);
          supportedModes = [Disarmed, AwayArmed, HomeArmed];
          supportedModes =
            (if nightModeBypassAlarmState plugin \<noteq> ''Disabled''
             then supportedModes @ [NightArmed] else supportedModes)
      in s\<lparr>securitySystemState :=
             Some \<lparr>mode = mode, triggered = False, supportedModes = supportedModes\<rparr>\<rparr>)"

subsection \<open>Discovery\<close>

text \<open>The body of the loop over \<^verbatim>\<open>this.location.cameras\<close> (lines 128 to 165). The pair
  is the local list \<^verbatim>\<open>devices\<close> and the controller.\<close>

definition discover_camera ::
  "Location \<Rightarrow> RingCamera \<Rightarrow> Device list \<times> RingLocationDevice
     \<Rightarrow> Device list \<times> RingLocationDevice" where
  "discover_camera loc camera acc =
     (case acc of (devs, s) \<Rightarrow>
       (let nativeId = toString (camera_id camera);
            interfaces = [IF_Camera, IF_MotionSensor, IF_RTCSignalingChannel];
            interfaces = (if \<not> isRingEdgeEnabled camera
                          then interfaces @ [IF_VideoCamera, IF_Intercom, IF_VideoClips]
                          else interfaces);
            interfaces = (if operatingOnBattery camera
                          then interfaces @ [IF_Battery] else interfaces);
            interfaces = (if isDoorbot camera
                          then interfaces @ [IF_BinarySensor] else interfaces);
            interfaces = (if hasLight camera
                          then interfaces @ [IF_DeviceProvider] else interfaces);
            interfaces = (if hasSiren camera
                          then interfaces @ [IF_DeviceProvider] else interfaces);
            device = \<lparr>info = \<lparr>info_model = model camera @ '' ('' @ kind (camera_data camera) @ '')'',
                                info_manufacturer = ''Ring'',
                                info_firmware = Some (firmware_version (camera_data camera)),
                                info_serialNumber = Some (camera_device_id (camera_data camera))\<rparr>,
                      providerNativeId = location_id loc,
                      nativeId = nativeId,
                      name = camera_name camera,
                      type = (if isDoorbot camera then DT_Doorbell else DT_Camera),
                      interfaces = interfaces\<rparr>
        in (devs @ [device],
            s\<lparr>locationDevices := Map_set (locationDevices s) nativeId (A_RingCamera camera)\<rparr>)))"

text \<open>The \<^verbatim>\<open>switch\<close> over \<^verbatim>\<open>data.deviceType\<close> (lines 178 to 207): the identifier, type and
  interfaces it assigns, or \<open>None\<close> where the default branch ignores the device. The
  cases are compared in the order of the source.\<close>

definition switch_deviceType ::
  "RingDeviceType \<Rightarrow> RingDevice
     \<Rightarrow> (string \<times> ScryptedDeviceType \<times> ScryptedInterface list) option" where
  "switch_deviceType T locationDevice =
     (let t = deviceType (device_data locationDevice) in
      if t = ContactSensor T \<or> t = RetrofitZone T \<or> t = TiltSensor T
      then Some (device_id locationDevice @ ''-sensor'', DT_Sensor,
                 [IF_TamperSensor, IF_EntrySensor])
      else if t = MotionSensor T
      then Some (device_id locationDevice @ ''-sensor'', DT_Sensor,
                 [IF_TamperSensor, IF_MotionSensor])
      else if t = FloodFreezeSensor T \<or> t = WaterSensor T
      then Some (device_id locationDevice @ ''-sensor'', DT_Sensor,
                 [IF_TamperSensor, IF_FloodSensor])
      else if lock_regex_test t
      then Some (device_id locationDevice @ ''-lock'', DT_Lock, [IF_Lock])
      else None)"

text \<open>The body of the loop over the generic devices (lines 168 to 226).\<close>

definition discover_device ::
  "RingDeviceType \<Rightarrow> Location \<Rightarrow> RingDevice \<Rightarrow> Device list \<times> RingLocationDevice
     \<Rightarrow> Device list \<times> RingLocationDevice" where
  "discover_device T loc locationDevice acc =
     (case acc of (devs, s) \<Rightarrow>
       (let data = device_data locationDevice in
        if status data = ''disabled'' then (devs, s)
        else
          (case switch_deviceType T locationDevice of
             None \<Rightarrow>
               (devs,
                emit (console_debug
                        (''discovered and ignoring unsupported '' @ [CHR 0x27]
                         @ deviceType data @ [CHR 0x27] @ '' device: '' @ [CHR 0x27]
                         @ device_name locationDevice @ [CHR 0x27])) s)
           | Some (nativeId', type', interfaces') \<Rightarrow>
               (let interfaces = (if batteryStatus data \<noteq> ''none''
                                  then interfaces' @ [IF_Battery] else interfaces');
                    device = \<lparr>info = \<lparr>info_model = deviceType data,
                                        info_manufacturer = ''Ring'',
                                        info_firmware = None,
                                        info_serialNumber =
                                          Some (case serialNumber data of
                                                  None \<Rightarrow> ''Unknown'' | Some n \<Rightarrow> n)\<rparr>,
                              providerNativeId = location_id loc,
                              nativeId = nativeId',
                              name = device_name locationDevice,
                              type = type',
                              interfaces = interfaces\<rparr>
                in (devs @ [device],
                    s\<lparr>locationDevices :=
                        Map_set (locationDevices s) nativeId' (A_RingDevice locationDevice)\<rparr>)))))"

text \<open>
  \<^verbatim>\<open>discoverDevices\<close> runs synchronously up to its first \<^verbatim>\<open>await\<close>: it clears the
  index, walks the cameras and asks the vendor for the generic devices. It resumes
  when that promise settles; a rejection rejects the promise of \<^verbatim>\<open>discoverDevices\<close>.
\<close>

definition discoverDevices_start ::
  "Location \<Rightarrow> RingLocationDevice \<Rightarrow> Device list \<times> RingLocationDevice" where
  "discoverDevices_start loc s =
     (case fold (discover_camera loc) (cameras loc)
             ([], s\<lparr>locationDevices := Map_clear (locationDevices s)\<rparr>) of
        (devs, s') \<Rightarrow> (devs, emit (VendorQuery ''getDevices'') s'))"

definition discoverDevices_resume ::
  "RingDeviceType \<Rightarrow> Location \<Rightarrow> Device list \<times> RingLocationDevice
     \<Rightarrow> (JSError + unit) \<times> RingLocationDevice" where
  "discoverDevices_resume T loc acc =
     (case getDevices loc of
        Inl e \<Rightarrow> (Inl e, snd acc)
      | Inr locationDevices' \<Rightarrow>
          (case fold (discover_device T loc) locationDevices' acc of
             (devs, s') \<Rightarrow> (Inr (), emit (onDevicesChanged (location_id loc) devs) s')))"

definition discoverDevices ::
  "RingDeviceType \<Rightarrow> Location \<Rightarrow> RingLocationDevice
     \<Rightarrow> (JSError + unit) \<times> RingLocationDevice" where
  "discoverDevices T loc s = discoverDevices_resume T loc (discoverDevices_start loc s)"

subsection \<open>The device cache\<close>

definition construct ::
  "DeviceClass \<Rightarrow> string \<Rightarrow> LocationDevice option \<Rightarrow> RingLocationDevice
     \<Rightarrow> nat \<times> RingLocationDevice" where
  "construct c nativeId' device s =
     (length (instances s),
      s\<lparr>instances := instances s @
           [\<lparr>instance_class = c, instance_nativeId = nativeId', instance_device = device\<rparr>]\<rparr>)"

text \<open>
  The constructors of \<^verbatim>\<open>RingSensor\<close> and \<^verbatim>\<open>RingLock\<close> (lines 46 to 51 and 11 to 17)
  evaluate \<^verbatim>\<open>device.onData\<close>: on \<^verbatim>\<open>undefined\<close> that throws a \<^verbatim>\<open>TypeError\<close>, and the instance
  under construction is dropped.
\<close>

definition new_RingSensor ::
  "string \<Rightarrow> LocationDevice option \<Rightarrow> RingLocationDevice
     \<Rightarrow> (JSError + nat) \<times> RingLocationDevice" where
  "new_RingSensor nativeId' device s =
     (case device of
        None \<Rightarrow> (Inl (TypeError ''Cannot read properties of undefined (reading onData)''), s)
      | Some d \<Rightarrow> (case construct RingSensor nativeId' device s of (r, s') \<Rightarrow> (Inr r, s')))"

definition new_RingLock ::
  "string \<Rightarrow> LocationDevice option \<Rightarrow> RingLocationDevice
     \<Rightarrow> (JSError + nat) \<times> RingLocationDevice" where
  "new_RingLock nativeId' device s =
     (case device of
        None \<Rightarrow> (Inl (TypeError ''Cannot read properties of undefined (reading onData)''), s)
      | Some d \<Rightarrow> (case construct RingLock nativeId' device s of (r, s') \<Rightarrow> (Inr r, s')))"

text \<open>
  \<^verbatim>\<open>RingCameraDevice\<close> is declared in \<^verbatim>\<open>./camera\<close>. Whether its constructor throws is the
  parameter \<open>camera_throws\<close>, from the identifier and the index entry to the error
  thrown, if any.
\<close>

definition new_RingCameraDevice ::
  "(string \<Rightarrow> LocationDevice option \<Rightarrow> JSError option)
     \<Rightarrow> string \<Rightarrow> LocationDevice option \<Rightarrow> RingLocationDevice
     \<Rightarrow> (JSError + nat) \<times> RingLocationDevice" where
  "new_RingCameraDevice camera_throws nativeId' device s =
     (case camera_throws nativeId' device of
        Some e \<Rightarrow> (Inl e, s)
      | None \<Rightarrow> (case construct RingCameraDevice nativeId' device s of (r, s') \<Rightarrow> (Inr r, s')))"

text \<open>\<^verbatim>\<open>this.devices.set(nativeId, device)\<close> after a constructor call.\<close>

definition store_device ::
  "string \<Rightarrow> (JSError + nat) \<times> RingLocationDevice \<Rightarrow> (JSError + unit) \<times> RingLocationDevice" where
  "store_device nativeId' r =
     (case r of
        (Inl e, s) \<Rightarrow> (Inl e, s)
      | (Inr device, s) \<Rightarrow> (Inr (), s\<lparr>devices := Map_set (devices s) nativeId' device\<rparr>))"

text \<open>\<^verbatim>\<open>getDevice\<close> (lines 234 to 248). The result \<open>None\<close> is \<^verbatim>\<open>undefined\<close>.\<close>

definition getDevice ::
  "(string \<Rightarrow> LocationDevice option \<Rightarrow> JSError option)
     \<Rightarrow> string \<Rightarrow> RingLocationDevice \<Rightarrow> (JSError + nat option) \<times> RingLocationDevice" where
  "getDevice camera_throws nativeId' s =
     (case (if \<not> Map_has (devices s) nativeId' then
              (if endsWith nativeId' ''-sensor'' then
                 store_device nativeId'
                   (new_RingSensor nativeId' (Map_get (locationDevices s) nativeId') s)
               else if endsWith nativeId' ''-lock'' then
                 store_device nativeId'
                   (new_RingLock nativeId' (Map_get (locationDevices s) nativeId') s)
               else
                 store_device nativeId'
                   (new_RingCameraDevice camera_throws nativeId'
                      (Map_get (locationDevices s) nativeId') s))
            else (Inr (), s)) of
        (Inl e, s') \<Rightarrow> (Inl e, s')
      | (Inr _, s') \<Rightarrow> (Inr (Map_get (devices s') nativeId'), s'))"

definition releaseDevice :: "string \<Rightarrow> string \<Rightarrow> RingLocationDevice \<Rightarrow> RingLocationDevice" where
  "releaseDevice ident nativeId' s = s"

subsection \<open>Arming and disarming\<close>

text \<open>A command sent to the vendor and awaited: it is recorded, and its rejection is
  the rejection of the caller.\<close>

definition send ::
  "Location \<Rightarrow> VendorCommand \<Rightarrow> RingLocationDevice \<Rightarrow> (JSError + unit) \<times> RingLocationDevice" where
  "send loc c s =
     (case command_result loc c of
        None \<Rightarrow> (Inr (), emit (VendorCall c) s)
      | Some e \<Rightarrow> (Inl e, emit (VendorCall c) s))"

text \<open>The predicate of the \<^verbatim>\<open>filter\<close> in line 261. A camera has no \<^verbatim>\<open>data.faulted\<close>, which
  makes the conjunction falsy whatever its \<^verbatim>\<open>deviceType\<close> is.\<close>

definition bypass_filter :: "RingDeviceType \<Rightarrow> LocationDevice \<Rightarrow> bool" where
  "bypass_filter T device =
     (case device of
        A_RingDevice d \<Rightarrow>
          (deviceType (device_data d) = ContactSensor T
             \<or> deviceType (device_data d) = RetrofitZone T)
          \<and> faulted (device_data d)
      | A_RingCamera c \<Rightarrow>
          (kind (camera_data c) = ContactSensor T \<or> kind (camera_data c) = RetrofitZone T)
          \<and> False)"

text \<open>\<^verbatim>\<open>sensor.id\<close> in line 262.\<close>

definition LocationDevice_id :: "LocationDevice \<Rightarrow> string" where
  "LocationDevice_id device =
     (case device of
        A_RingDevice d \<Rightarrow> device_id d
      | A_RingCamera c \<Rightarrow> toString (camera_id c))"

text \<open>\<^verbatim>\<open>armSecuritySystem\<close> (lines 252 to 273).\<close>

definition armSecuritySystem ::
  "RingPlugin \<Rightarrow> RingDeviceType \<Rightarrow> Location \<Rightarrow> SecuritySystemMode \<Rightarrow> RingLocationDevice
     \<Rightarrow> (JSError + unit) \<times> RingLocationDevice" where
  "armSecuritySystem plugin T loc m s =
     (if m = AwayArmed then send loc (armAway None) s
      else if m = HomeArmed then send loc (armHome None) s
      else if m = NightArmed then
        (let bypassContactSensors =
               map LocationDevice_id
                 (filter (bypass_filter T) (Object_values (locationDevices s)))
         in if nightModeBypassAlarmState plugin = ''Away''
            then send loc (armAway (Some bypassContactSensors)) s
            else send loc (armHome (Some bypassContactSensors)) s)
      else if m = Disarmed then send loc disarm s
      else (Inr (), s))"

definition disarmSecuritySystem ::
  "Location \<Rightarrow> RingLocationDevice \<Rightarrow> (JSError + unit) \<times> RingLocationDevice" where
  "disarmSecuritySystem loc s = send loc disarm s"

subsection \<open>Promises\<close>

text \<open>
  A promise that has settled is \<open>Inl\<close> (rejected) or \<open>Inr\<close> (fulfilled). \<^verbatim>\<open>then\<close> runs its
  callback on a fulfilled promise and passes a rejection on; \<^verbatim>\<open>catch\<close> runs its handler
  on a rejection. A chain that nobody awaits and that ends rejected is an unhandled
  rejection. The callbacks never run inside the call that registered them.
\<close>

definition promise_then ::
  "JSError + 'a \<Rightarrow> ('a \<Rightarrow> RingLocationDevice \<Rightarrow> (JSError + 'b) \<times> RingLocationDevice)
     \<Rightarrow> RingLocationDevice \<Rightarrow> (JSError + 'b) \<times> RingLocationDevice" where
  "promise_then p f s = (case p of Inl e \<Rightarrow> (Inl e, s) | Inr v \<Rightarrow> f v s)"

definition promise_catch ::
  "(JSError + 'a) \<times> RingLocationDevice
     \<Rightarrow> (JSError \<Rightarrow> RingLocationDevice \<Rightarrow> (JSError + 'a) \<times> RingLocationDevice)
     \<Rightarrow> (JSError + 'a) \<times> RingLocationDevice" where
  "promise_catch r h = (case r of (Inl e, s) \<Rightarrow> h e s | (Inr v, s) \<Rightarrow> (Inr v, s))"

definition unawaited :: "(JSError + 'a) \<times> RingLocationDevice \<Rightarrow> RingLocationDevice" where
  "unawaited r = (case r of (Inl e, s) \<Rightarrow> emit (UnhandledRejection e) s | (Inr v, s) \<Rightarrow> s)"

subsection \<open>The constructor\<close>

text \<open>The chain \<^verbatim>\<open>getSecurityPanel().then(...).catch(...)\<close> of lines 100 to 109, run when
  the panel promise settles.\<close>

definition panel_chain ::
  "Location \<Rightarrow> RingLocationDevice \<Rightarrow> (JSError + unit) \<times> RingLocationDevice" where
  "panel_chain loc s =
     promise_catch
       (promise_then (getSecurityPanel loc)
          (\<lambda>panel s. (Inr (), emit (Subscribed panel_onData) s)) s)
       (\<lambda>error s. (Inr (), s))"

text \<open>The chain \<^verbatim>\<open>getLocationMode().then(...)\<close> of lines 102 to 104 and 112 to 114.\<close>

definition mode_chain ::
  "RingPlugin \<Rightarrow> Location \<Rightarrow> RingLocationDevice \<Rightarrow> (JSError + unit) \<times> RingLocationDevice" where
  "mode_chain plugin loc s =
     promise_then (getLocationMode loc)
       (\<lambda>response_mode s. (Inr (), updateLocationMode plugin response_mode s)) s"

text \<open>The subscriber of the panel feed (lines 101 to 105).\<close>

definition on_panel_data :: "RingPlugin \<Rightarrow> Location \<Rightarrow> RingLocationDevice \<Rightarrow> RingLocationDevice" where
  "on_panel_data plugin loc s =
     unawaited (mode_chain plugin loc (emit (VendorQuery ''getLocationMode'') s))"

text \<open>The field initialisers of lines 64 and 65, on top of the property value the
  host holds.\<close>

definition new_RingLocationDevice :: "SecuritySystemState option \<Rightarrow> RingLocationDevice" where
  "new_RingLocationDevice stored =
     \<lparr>securitySystemState = stored, devices = new_Map, locationDevices = new_Map,
      instances = [], effects = []\<rparr>"

text \<open>What the constructor leaves pending when its body ends.\<close>

datatype Task = panel_settled | mode_fetched | devices_fetched "Device list"

text \<open>
  The synchronous body of the constructor (lines 67 to 122). \<open>stored\<close> is the value of
  the property \<^verbatim>\<open>securitySystemState\<close> that the host holds for the device when it is
  constructed. The call of \<^verbatim>\<open>discoverDevices\<close> in line 121 runs up to its \<^verbatim>\<open>await\<close>.
\<close>

definition constructor_body ::
  "RingPlugin \<Rightarrow> Location \<Rightarrow> SecuritySystemState option \<Rightarrow> RingLocationDevice \<times> Task list" where
  "constructor_body plugin loc stored =
     (let s = new_RingLocationDevice stored;
          s = fold (updateLocationMode plugin) (onLocationMode_replay loc)
                (emit (Subscribed onLocationMode) s);
          s = emit (VendorQuery ''getSecurityPanel'') s;
          s = (if hasAlarmBaseStation loc then
                 (let s = emit (VendorQuery ''getLocationMode'') s
                  in if securitySystemState s = None
                     then updateLocationMode plugin ''disabled'' s else s)
               else s)
      in case discoverDevices_start loc s of
           (devs, s') \<Rightarrow>
             (s', [panel_settled]
                  @ (if hasAlarmBaseStation loc then [mode_fetched] else [])
                  @ [devices_fetched devs]))"

text \<open>A pending continuation runs when its promise has settled.\<close>

definition run_task ::
  "RingPlugin \<Rightarrow> RingDeviceType \<Rightarrow> Location \<Rightarrow> Task \<Rightarrow> RingLocationDevice
     \<Rightarrow> RingLocationDevice" where
  "run_task plugin T loc t s =
     (case t of
        panel_settled \<Rightarrow> unawaited (panel_chain loc s)
      | mode_fetched \<Rightarrow> unawaited (mode_chain plugin loc s)
      | devices_fetched devs \<Rightarrow> unawaited (discoverDevices_resume T loc (devs, s)))"

text \<open>The constructor followed by its continuations, in the order of \<open>schedule\<close>.\<close>

definition constructed ::
  "RingPlugin \<Rightarrow> RingDeviceType \<Rightarrow> Location \<Rightarrow> SecuritySystemState option
     \<Rightarrow> (Task list \<Rightarrow> Task list) \<Rightarrow> RingLocationDevice" where
  "constructed plugin T loc stored schedule =
     (case constructor_body plugin loc stored of
        (s, tasks) \<Rightarrow> fold (run_task plugin T loc) (schedule tasks) s)"

subsection \<open>Runs of the controller\<close>

text \<open>
  The states a controller can be in: the state the constructor's body leaves, and from
  there any continuation, feed event or method call, with whatever the plugin
  settings and the vendor answer at that moment. A discovery may be interleaved with
  other steps at its \<^verbatim>\<open>await\<close>.
\<close>

inductive reachable :: "RingLocationDevice \<Rightarrow> bool" where
  after_constructor: "reachable (fst (constructor_body plugin loc stored))"
| after_task: "reachable s \<Longrightarrow> reachable (run_task plugin T loc t s)"
| after_mode_feed: "reachable s \<Longrightarrow> reachable (updateLocationMode plugin f s)"
| after_panel_feed: "reachable s \<Longrightarrow> reachable (on_panel_data plugin loc s)"
| after_discovery_start: "reachable s \<Longrightarrow> reachable (snd (discoverDevices_start loc s))"
| after_discovery: "reachable s \<Longrightarrow> reachable (snd (discoverDevices T loc s))"
| after_getDevice: "reachable s \<Longrightarrow> reachable (snd (getDevice camera_throws nativeId' s))"
| after_releaseDevice: "reachable s \<Longrightarrow> reachable (releaseDevice ident nativeId' s)"
| after_arm: "reachable s \<Longrightarrow> reachable (snd (armSecuritySystem plugin T loc m s))"
| after_disarm: "reachable s \<Longrightarrow> reachable (snd (disarmSecuritySystem loc s))"

text \<open>The descriptor lists handed to \<^verbatim>\<open>deviceManager.onDevicesChanged\<close>, one per call.\<close>

fun published :: "Effect list \<Rightarrow> Device list list" where
  "published [] = []"
| "published (onDevicesChanged p ds # es) = ds # published es"
| "published (e # es) = published es"

text \<open>Two accumulators of the discovery loops that hold the same descriptors and the
  same index entries.\<close>

definition same_discovery ::
  "Device list \<times> RingLocationDevice \<Rightarrow> Device list \<times> RingLocationDevice \<Rightarrow> bool" where
  "same_discovery a b =
     (fst a = fst b \<and> MapData (locationDevices (snd a)) = MapData (locationDevices (snd b)))"

text \<open>The part of the controller that no discovery step writes.\<close>

definition untouched_by_discovery ::
  "RingLocationDevice \<Rightarrow> SecuritySystemState option \<times> nat JSMap \<times> Instance list
     \<times> (string \<times> LocationDevice) list" where
  "untouched_by_discovery s =
     (securitySystemState s, devices s, instances s, ownProperties (locationDevices s))"

text \<open>The descriptor that the loop over the cameras builds for a camera (the object
  literal of lines 150 to 162, with the interfaces of lines 130 to 149).\<close>

definition camera_descriptor :: "Location \<Rightarrow> RingCamera \<Rightarrow> Device" where
  "camera_descriptor loc camera =
     \<lparr>info = \<lparr>info_model = model camera @ '' ('' @ kind (camera_data camera) @ '')'',
               info_manufacturer = ''Ring'',
               info_firmware = Some (firmware_version (camera_data camera)),
               info_serialNumber = Some (camera_device_id (camera_data camera))\<rparr>,
      providerNativeId = location_id loc,
      nativeId = toString (camera_id camera),
      name = camera_name camera,
      type = (if isDoorbot camera then DT_Doorbell else DT_Camera),
      interfaces =
        [IF_Camera, IF_MotionSensor, IF_RTCSignalingChannel]
        @ (if isRingEdgeEnabled camera then [] else [IF_VideoCamera, IF_Intercom, IF_VideoClips])
        @ (if operatingOnBattery camera then [IF_Battery] else [])
        @ (if isDoorbot camera then [IF_BinarySensor] else [])
        @ (if hasLight camera then [IF_DeviceProvider] else [])
        @ (if hasSiren camera then [IF_DeviceProvider] else [])\<rparr>"

text \<open>The descriptor that the loop over the generic devices builds for a record (the
  object literal of lines 212 to 223), or \<open>None\<close> where the loop goes on to the next
  record without one: the record is disabled or its type is not supported.\<close>

definition device_descriptor :: "RingDeviceType \<Rightarrow> Location \<Rightarrow> RingDevice \<Rightarrow> Device option" where
  "device_descriptor T loc locationDevice =
     (if status (device_data locationDevice) = ''disabled'' then None
      else map_option
             (\<lambda>(nativeId', type', interfaces').
                \<lparr>info = \<lparr>info_model = deviceType (device_data locationDevice),
                          info_manufacturer = ''Ring'',
                          info_firmware = None,
                          info_serialNumber =
                            Some (case serialNumber (device_data locationDevice) of
                                    None \<Rightarrow> ''Unknown'' | Some n \<Rightarrow> n)\<rparr>,
                 providerNativeId = location_id loc,
                 nativeId = nativeId',
                 name = device_name locationDevice,
                 type = type',
                 interfaces =
                   interfaces'
                   @ (if batteryStatus (device_data locationDevice) \<noteq> ''none''
                      then [IF_Battery] else [])\<rparr>)
             (switch_deviceType T locationDevice))"

text \<open>The descriptor list of a whole discovery: the cameras of the location in their
  order, then the enumerated devices in theirs.\<close>

definition descriptors :: "RingDeviceType \<Rightarrow> Location \<Rightarrow> RingDevice list \<Rightarrow> Device list" where
  "descriptors T loc lds =
     map (camera_descriptor loc) (cameras loc) @ List.map_filter (device_descriptor T loc) lds"

text \<open>The calls of \<^verbatim>\<open>this.locationDevices.set\<close> of a whole discovery, in their order:
  each described record under the identifier of its descriptor.\<close>

definition index_entries ::
  "RingDeviceType \<Rightarrow> Location \<Rightarrow> RingDevice list \<Rightarrow> (string \<times> LocationDevice) list" where
  "index_entries T loc lds =
     map (\<lambda>c. (toString (camera_id c), A_RingCamera c)) (cameras loc)
     @ List.map_filter
         (\<lambda>d. map_option (\<lambda>dev. (nativeId dev, A_RingDevice d)) (device_descriptor T loc d))
         lds"

text \<open>A sequence of \<^verbatim>\<open>set\<close> calls on an empty \<^verbatim>\<open>Map\<close>.\<close>

definition Map_of_entries :: "(string \<times> 'v) list \<Rightarrow> (string \<times> 'v) list" where
  "Map_of_entries kvs = fold (\<lambda>kv al. AList.update (fst kv) (snd kv) al) kvs []"

text \<open>The construction path that \<^verbatim>\<open>getDevice\<close> takes for an identifier.\<close>

definition class_for :: "string \<Rightarrow> DeviceClass" where
  "class_for nativeId' =
     (if endsWith nativeId' ''-sensor'' then RingSensor
      else if endsWith nativeId' ''-lock'' then RingLock
      else RingCameraDevice)"

text \<open>The cache holds exactly the constructed instances, each under its own
  identifier, in the order of their construction.\<close>

definition cache_consistent :: "RingLocationDevice \<Rightarrow> bool" where
  "cache_consistent s =
     (MapData (devices s)
        = zip (map instance_nativeId (instances s)) [0..<length (instances s)]
      \<and> distinct (map instance_nativeId (instances s))
      \<and> list_all (\<lambda>i. instance_class i = class_for (instance_nativeId i)) (instances s))"

subsection \<open>Concrete locations\<close>

text \<open>The values of \<^verbatim>\<open>RingDeviceType\<close> in ring-client-api.\<close>

definition ring_types :: RingDeviceType where
  "ring_types =
     \<lparr>ContactSensor = ''sensor.contact'', RetrofitZone = ''sensor.zone'',
      TiltSensor = ''sensor.tilt'', MotionSensor = ''sensor.motion'',
      FloodFreezeSensor = ''sensor.flood-freeze'', WaterSensor = ''sensor.water''\<rparr>"

definition sensor :: "string \<Rightarrow> string \<Rightarrow> string \<Rightarrow> bool \<Rightarrow> RingDevice" where
  "sensor ident tag st f =
     \<lparr>device_id = ident, device_name = ''Door '' @ ident,
      device_data = \<lparr>deviceType = tag, status = st, batteryStatus = ''full'',
                     serialNumber = None, faulted = f\<rparr>\<rparr>"

text \<open>Two faulted sensors, a contact sensor and a retrofit zone, and a contact sensor
  that is not faulted.\<close>

definition S1 :: RingDevice where "S1 = sensor ''S1'' ''sensor.contact'' ''ok'' True"
definition S2 :: RingDevice where "S2 = sensor ''S2'' ''sensor.zone'' ''ok'' True"
definition S3 :: RingDevice where "S3 = sensor ''S3'' ''sensor.contact'' ''ok'' False"

definition night_home :: RingPlugin where
  "night_home = \<lparr>nightModeBypassAlarmState = ''Home''\<rparr>"

text \<open>A location with a base station, no camera and no security panel, whose mode
  is \<^verbatim>\<open>away\<close>.\<close>

definition sensor_location :: Location where
  "sensor_location =
     \<lparr>location_id = ''loc'', cameras = [], hasAlarmBaseStation = True,
      onLocationMode_replay = [],
      getSecurityPanel = Inl (VendorError ''Could not find a security panel''),
      getLocationMode = Inr ''away'',
      getDevices = Inr [S1, S2, S3],
      command_result = (\<lambda>c. None)\<rparr>"

definition front_door :: "string \<Rightarrow> RingCamera" where
  "front_door st =
     \<lparr>camera_id = 12, camera_name = ''Front Door'', model = ''Doorbell'',
      isRingEdgeEnabled = False, operatingOnBattery = True, isDoorbot = True,
      hasLight = False, hasSiren = False,
      camera_data = \<lparr>kind = ''doorbell_v3'', firmware_version = ''1.0'',
                     camera_device_id = ''abc'', camera_status = st\<rparr>\<rparr>"

text \<open>A location whose only record is a camera with the status \<^verbatim>\<open>disabled\<close>.\<close>

definition camera_location :: Location where
  "camera_location =
     \<lparr>location_id = ''loc'', cameras = [front_door ''disabled''], hasAlarmBaseStation = False,
      onLocationMode_replay = [],
      getSecurityPanel = Inl (VendorError ''Could not find a security panel''),
      getLocationMode = Inr ''home'',
      getDevices = Inr [],
      command_result = (\<lambda>c. None)\<rparr>"

text \<open>The controller of \<open>sensor_location\<close> once its constructor and the pending
  continuations have run: the three sensors are discovered.\<close>

definition sensors_discovered :: RingLocationDevice where
  "sensors_discovered = constructed night_home ring_types sensor_location None id"

section \<open>Properties\<close>

subsection \<open>Field by field\<close>

lemmas SecuritySystemMode_defs = Disarmed_def HomeArmed_def AwayArmed_def NightArmed_def

lemma emit_fields [simp]:
  "securitySystemState (emit e s) = securitySystemState s"
  "devices (emit e s) = devices s"
  "locationDevices (emit e s) = locationDevices s"
  "instances (emit e s) = instances s"
  "effects (emit e s) = effects s @ [e]"
  by (simp_all add: emit_def)

lemma updateLocationMode_fields [simp]:
  "devices (updateLocationMode plugin f s) = devices s"
  "locationDevices (updateLocationMode plugin f s) = locationDevices s"
  "instances (updateLocationMode plugin f s) = instances s"
  "effects (updateLocationMode plugin f s) = effects s"
  by (simp_all add: updateLocationMode_def Let_def)

lemma updateLocationMode_defined [simp]:
  "securitySystemState (updateLocationMode plugin f s) \<noteq> None"
  by (simp add: updateLocationMode_def Let_def)

lemma updateLocationMode_overwrites:
  "securitySystemState (updateLocationMode plugin f s)
     = securitySystemState (updateLocationMode plugin f s')"
  by (simp add: updateLocationMode_def Let_def)

lemma published_append [simp]: "published (xs @ ys) = published xs @ published ys"
  by (induction xs rule: published.induct) simp_all

lemma fold_related:
  assumes "\<And>x a b. R a b \<Longrightarrow> R (f x a) (g x b)" and "R a b"
  shows "R (fold f xs a) (fold g xs b)"
  using assms(2) by (induction xs arbitrary: a b) (simp_all add: assms(1))

lemma fold_keeps:
  assumes "\<And>x a. h (f x a) = h a"
  shows "h (fold f xs a) = h a"
  by (induction xs arbitrary: a) (simp_all add: assms)

subsection \<open>Facts about discovery\<close>

lemma discover_camera_same:
  "same_discovery a b \<Longrightarrow> same_discovery (discover_camera loc c a) (discover_camera loc c b)"
  by (cases a; cases b) (simp add: same_discovery_def discover_camera_def Let_def Map_set_def)

lemma discover_device_same:
  "same_discovery a b \<Longrightarrow> same_discovery (discover_device T loc d a) (discover_device T loc d b)"
  by (cases a; cases b)
     (simp add: same_discovery_def discover_device_def Let_def Map_set_def split: option.splits)

lemma discover_camera_untouched:
  "untouched_by_discovery (snd (discover_camera loc c a)) = untouched_by_discovery (snd a)"
  by (cases a) (simp add: untouched_by_discovery_def discover_camera_def Let_def Map_set_def)

lemma discover_camera_effects:
  "effects (snd (discover_camera loc c a)) = effects (snd a)"
  by (cases a) (simp add: discover_camera_def Let_def)

lemma discover_device_untouched:
  "untouched_by_discovery (snd (discover_device T loc d a)) = untouched_by_discovery (snd a)"
  by (cases a)
     (simp add: untouched_by_discovery_def discover_device_def Let_def Map_set_def
           split: option.splits)

lemma discover_device_published:
  "published (effects (snd (discover_device T loc d a))) = published (effects (snd a))"
  by (cases a) (simp add: discover_device_def Let_def split: option.splits)

lemma discoverDevices_start_untouched:
  "untouched_by_discovery (snd (discoverDevices_start loc s)) = untouched_by_discovery s"
proof -
  have "untouched_by_discovery
          (snd (fold (discover_camera loc) (cameras loc)
                  ([], s\<lparr>locationDevices := Map_clear (locationDevices s)\<rparr>)))
        = untouched_by_discovery s"
    by (simp add: fold_keeps [where h = "\<lambda>a. untouched_by_discovery (snd a)"]
          discover_camera_untouched)
       (simp add: untouched_by_discovery_def Map_clear_def)
  then show ?thesis
    by (simp add: discoverDevices_start_def untouched_by_discovery_def split_def)
qed

lemma discoverDevices_start_effects:
  "effects (snd (discoverDevices_start loc s)) = effects s @ [VendorQuery ''getDevices'']"
proof -
  have "effects (snd (fold (discover_camera loc) (cameras loc)
                  ([], s\<lparr>locationDevices := Map_clear (locationDevices s)\<rparr>)))
        = effects s"
    by (simp add: fold_keeps [where h = "\<lambda>a. effects (snd a)"] discover_camera_effects)
  then show ?thesis
    by (simp add: discoverDevices_start_def split_def)
qed

lemma discoverDevices_resume_untouched:
  "untouched_by_discovery (snd (discoverDevices_resume T loc acc))
     = untouched_by_discovery (snd acc)"
proof (cases "getDevices loc")
  case (Inl e)
  then show ?thesis by (simp add: discoverDevices_resume_def)
next
  case (Inr lds)
  have "untouched_by_discovery (snd (fold (discover_device T loc) lds acc))
          = untouched_by_discovery (snd acc)"
    by (simp add: fold_keeps [where h = "\<lambda>a. untouched_by_discovery (snd a)"]
          discover_device_untouched)
  with Inr show ?thesis
    by (simp add: discoverDevices_resume_def untouched_by_discovery_def split_def)
qed

lemma discoverDevices_untouched:
  "untouched_by_discovery (snd (discoverDevices T loc s)) = untouched_by_discovery s"
  by (simp add: discoverDevices_def discoverDevices_resume_untouched
        discoverDevices_start_untouched)

lemma discoverDevices_start_same:
  "same_discovery (discoverDevices_start loc s) (discoverDevices_start loc s')"
proof -
  have "same_discovery
          (fold (discover_camera loc) (cameras loc)
             ([], s\<lparr>locationDevices := Map_clear (locationDevices s)\<rparr>))
          (fold (discover_camera loc) (cameras loc)
             ([], s'\<lparr>locationDevices := Map_clear (locationDevices s')\<rparr>))"
    by (rule fold_related [where R = same_discovery])
       (simp_all add: discover_camera_same, simp add: same_discovery_def Map_clear_def)
  then show ?thesis
    by (simp add: discoverDevices_start_def same_discovery_def split_def)
qed

lemma discoverDevices_resume_published:
  assumes "getDevices loc = Inr lds"
  shows "published (effects (snd (discoverDevices_resume T loc acc)))
           = published (effects (snd acc)) @ [fst (fold (discover_device T loc) lds acc)]"
proof -
  have "published (effects (snd (fold (discover_device T loc) lds acc)))
          = published (effects (snd acc))"
    by (simp add: fold_keeps [where h = "\<lambda>a. published (effects (snd a))"]
          discover_device_published)
  with assms show ?thesis
    by (simp add: discoverDevices_resume_def split_def)
qed

subsection \<open>Facts about the methods\<close>

lemma send_fields [simp]:
  "securitySystemState (snd (send loc c s)) = securitySystemState s"
  "devices (snd (send loc c s)) = devices s"
  "locationDevices (snd (send loc c s)) = locationDevices s"
  "instances (snd (send loc c s)) = instances s"
  "effects (snd (send loc c s)) = effects s @ [VendorCall c]"
  by (simp_all add: send_def split: option.splits)

lemma send_only_emits: "snd (send loc c s) = emit (VendorCall c) s"
  by (simp add: send_def split: option.splits)

lemma armSecuritySystem_fields:
  "securitySystemState (snd (armSecuritySystem plugin T loc m s)) = securitySystemState s"
  "devices (snd (armSecuritySystem plugin T loc m s)) = devices s"
  "locationDevices (snd (armSecuritySystem plugin T loc m s)) = locationDevices s"
  "instances (snd (armSecuritySystem plugin T loc m s)) = instances s"
  by (simp_all add: armSecuritySystem_def Let_def)

lemma disarmSecuritySystem_fields:
  "securitySystemState (snd (disarmSecuritySystem loc s)) = securitySystemState s"
  "devices (snd (disarmSecuritySystem loc s)) = devices s"
  "locationDevices (snd (disarmSecuritySystem loc s)) = locationDevices s"
  "instances (snd (disarmSecuritySystem loc s)) = instances s"
  by (simp_all add: disarmSecuritySystem_def)

lemma construct_fields [simp]:
  "securitySystemState (snd (construct c n d s)) = securitySystemState s"
  "devices (snd (construct c n d s)) = devices s"
  "locationDevices (snd (construct c n d s)) = locationDevices s"
  "effects (snd (construct c n d s)) = effects s"
  "fst (construct c n d s) = length (instances s)"
  "instances (snd (construct c n d s))
     = instances s @ [\<lparr>instance_class = c, instance_nativeId = n, instance_device = d\<rparr>]"
  by (simp_all add: construct_def)

lemma getDevice_fields:
  "securitySystemState (snd (getDevice camera_throws n s)) = securitySystemState s"
  "locationDevices (snd (getDevice camera_throws n s)) = locationDevices s"
  "effects (snd (getDevice camera_throws n s)) = effects s"
  by (simp_all add: getDevice_def store_device_def new_RingSensor_def new_RingLock_def
        new_RingCameraDevice_def split_def split: option.splits sum.splits)

lemma discoverDevices_securitySystemState:
  "securitySystemState (snd (discoverDevices T loc s)) = securitySystemState s"
  using discoverDevices_untouched [of T loc s] by (simp add: untouched_by_discovery_def)

text \<open>
  Claim C4. Whatever raw mode the reconciler's transition function receives, the
  snapshot it stores has the mode AwayArmed for \<^verbatim>\<open>away\<close>, HomeArmed for \<^verbatim>\<open>home\<close> and
  Disarmed for every other value, its \<open>triggered\<close> field is false, and its supported
  modes are Disarmed, AwayArmed and HomeArmed, followed by NightArmed exactly when
  the setting \<^verbatim>\<open>nightModeBypassAlarmState\<close> is not \<^verbatim>\<open>Disabled\<close>.
\<close>

theorem updateLocationMode_snapshot:
  "\<exists>snapshot. securitySystemState (updateLocationMode plugin f s) = Some snapshot
     \<and> mode snapshot = (if f = ''away'' then AwayArmed
                        else if f = ''home'' then HomeArmed else Disarmed)
     \<and> triggered snapshot = False
     \<and> {Disarmed, AwayArmed, HomeArmed} \<subseteq> set (supportedModes snapshot)
     \<and> (NightArmed \<in> set (supportedModes snapshot))
         = (nightModeBypassAlarmState plugin \<noteq> ''Disabled'')
     \<and> supportedModes snapshot
         = [Disarmed, AwayArmed, HomeArmed]
           @ (if nightModeBypassAlarmState plugin \<noteq> ''Disabled'' then [NightArmed] else [])"
  by (simp add: updateLocationMode_def Let_def SecuritySystemMode_defs)

theorem updateLocationMode_snapshot_witness:
  "\<exists>snapshot. securitySystemState
       (updateLocationMode night_home ''away'' (new_RingLocationDevice None)) = Some snapshot
     \<and> mode snapshot = AwayArmed
     \<and> triggered snapshot = False
     \<and> supportedModes snapshot = [Disarmed, AwayArmed, HomeArmed, NightArmed]"
  using updateLocationMode_snapshot [of night_home "''away''" "new_RingLocationDevice None"]
  by (auto simp add: night_home_def)

text \<open>
  Claim C8. Neither \<^verbatim>\<open>armSecuritySystem\<close>, for any requested mode, nor
  \<^verbatim>\<open>disarmSecuritySystem\<close> writes the stored snapshot: all they do is record a vendor
  command. Discovery, \<^verbatim>\<open>getDevice\<close> and \<^verbatim>\<open>releaseDevice\<close> leave the snapshot alone as
  well, so the only writer is \<^verbatim>\<open>updateLocationMode\<close>, the update path of the feeds.
\<close>

theorem arm_and_disarm_keep_snapshot:
  "securitySystemState (snd (armSecuritySystem plugin T loc m s)) = securitySystemState s
   \<and> securitySystemState (snd (disarmSecuritySystem loc s)) = securitySystemState s
   \<and> (snd (armSecuritySystem plugin T loc m s))\<lparr>effects := effects s\<rparr> = s
   \<and> (snd (disarmSecuritySystem loc s))\<lparr>effects := effects s\<rparr> = s
   \<and> securitySystemState (snd (discoverDevices T loc s)) = securitySystemState s
   \<and> securitySystemState (snd (getDevice camera_throws nativeId' s)) = securitySystemState s
   \<and> securitySystemState (releaseDevice ident nativeId' s) = securitySystemState s"
  by (simp add: armSecuritySystem_fields disarmSecuritySystem_fields
        discoverDevices_securitySystemState getDevice_fields releaseDevice_def
        armSecuritySystem_def disarmSecuritySystem_def send_only_emits emit_def Let_def)

text \<open>
  Claim C10. For a mode that is none of AwayArmed, HomeArmed, NightArmed and
  Disarmed, \<^verbatim>\<open>armSecuritySystem\<close> returns normally and leaves the controller as it
  was, its record of vendor commands included: nothing is sent to the vendor.
\<close>

theorem armSecuritySystem_other_mode:
  "m \<notin> {AwayArmed, HomeArmed, NightArmed, Disarmed}
     \<Longrightarrow> armSecuritySystem plugin T loc m s = (Inr (), s)"
  by (simp add: armSecuritySystem_def)

theorem armSecuritySystem_other_mode_witness:
  "''Vacation'' \<notin> {AwayArmed, HomeArmed, NightArmed, Disarmed}
   \<and> armSecuritySystem night_home ring_types sensor_location ''Vacation''
        (new_RingLocationDevice None)
      = (Inr (), new_RingLocationDevice None)"
proof -
  have other: "''Vacation'' \<notin> {AwayArmed, HomeArmed, NightArmed, Disarmed}"
    by (simp add: SecuritySystemMode_defs)
  from armSecuritySystem_other_mode [OF other] other show ?thesis by simp
qed

subsection \<open>Facts about the constructor and its continuations\<close>

lemma fold_invariant:
  assumes "\<And>x a. Q a \<Longrightarrow> Q (f x a)" and "Q a"
  shows "Q (fold f xs a)"
  using assms(2) by (induction xs arbitrary: a) (simp_all add: assms(1))

lemma unawaited_fields [simp]:
  "securitySystemState (unawaited r) = securitySystemState (snd r)"
  "devices (unawaited r) = devices (snd r)"
  "locationDevices (unawaited r) = locationDevices (snd r)"
  "instances (unawaited r) = instances (snd r)"
  by (cases r; simp add: unawaited_def split: sum.splits)+

lemma unawaited_effects:
  "effects (unawaited r)
     = effects (snd r) @ (case fst r of Inl e \<Rightarrow> [UnhandledRejection e] | Inr v \<Rightarrow> [])"
  by (cases r) (simp add: unawaited_def split: sum.splits)

lemma panel_chain_rejected:
  "getSecurityPanel loc = Inl e \<Longrightarrow> panel_chain loc s = (Inr (), s)"
  by (simp add: panel_chain_def promise_then_def promise_catch_def)

lemma panel_chain_fulfilled:
  "getSecurityPanel loc = Inr panel
     \<Longrightarrow> panel_chain loc s = (Inr (), emit (Subscribed panel_onData) s)"
  by (simp add: panel_chain_def promise_then_def promise_catch_def)

lemma mode_chain_cases:
  "mode_chain plugin loc s
     = (case getLocationMode loc of
          Inl e \<Rightarrow> (Inl e, s)
        | Inr m \<Rightarrow> (Inr (), updateLocationMode plugin m s))"
  by (simp add: mode_chain_def promise_then_def)

lemma fold_updateLocationMode_fields [simp]:
  "devices (fold (updateLocationMode plugin) ms s) = devices s"
  "locationDevices (fold (updateLocationMode plugin) ms s) = locationDevices s"
  "instances (fold (updateLocationMode plugin) ms s) = instances s"
  "effects (fold (updateLocationMode plugin) ms s) = effects s"
  by (induction ms arbitrary: s) simp_all

lemma constructor_body_effects:
  "effects (fst (constructor_body plugin loc stored))
     = [Subscribed onLocationMode, VendorQuery ''getSecurityPanel'']
       @ (if hasAlarmBaseStation loc then [VendorQuery ''getLocationMode''] else [])
       @ [VendorQuery ''getDevices'']"
  by (simp add: constructor_body_def Let_def split_def discoverDevices_start_effects
        new_RingLocationDevice_def)

lemma constructor_body_tasks:
  "snd (constructor_body plugin loc stored)
     = [panel_settled] @ (if hasAlarmBaseStation loc then [mode_fetched] else [])
       @ [devices_fetched (fst (discoverDevices_start loc
            (new_RingLocationDevice stored)))]"
proof -
  have "fst (discoverDevices_start loc s) = fst (discoverDevices_start loc s')" for s s'
    using discoverDevices_start_same [of loc s s'] by (simp add: same_discovery_def)
  then show ?thesis
    by (simp add: constructor_body_def Let_def split_def)
qed

lemma discoverDevices_start_securitySystemState:
  "securitySystemState (snd (discoverDevices_start loc s)) = securitySystemState s"
  using discoverDevices_start_untouched [of loc s] by (simp add: untouched_by_discovery_def)

lemma constructor_body_securitySystemState:
  "securitySystemState (fst (constructor_body plugin loc stored))
     = (let subscribed = fold (updateLocationMode plugin) (onLocationMode_replay loc)
                           (new_RingLocationDevice stored)
        in if hasAlarmBaseStation loc \<and> securitySystemState subscribed = None
           then securitySystemState (updateLocationMode plugin ''disabled'' subscribed)
           else securitySystemState subscribed)"
proof -
  have "securitySystemState (fold (updateLocationMode plugin) ms (emit e s))
          = securitySystemState (fold (updateLocationMode plugin) ms s)" for ms e s
    by (induction ms arbitrary: s rule: rev_induct)
       (simp_all add: updateLocationMode_overwrites [of _ _ "fold _ _ (emit _ _)"])
  then show ?thesis
    by (simp add: constructor_body_def Let_def split_def
          discoverDevices_start_securitySystemState
          updateLocationMode_overwrites [of _ _ "emit _ _"])
qed

lemma run_task_securitySystemState:
  "securitySystemState (run_task plugin T loc t s)
     = (case t of
          mode_fetched \<Rightarrow>
            (case getLocationMode loc of
               Inl e \<Rightarrow> securitySystemState s
             | Inr m \<Rightarrow> securitySystemState (updateLocationMode plugin m s))
        | _ \<Rightarrow> securitySystemState s)"
proof (cases t)
  case panel_settled
  then show ?thesis
    by (cases "getSecurityPanel loc")
       (simp_all add: run_task_def panel_chain_rejected panel_chain_fulfilled)
next
  case mode_fetched
  then show ?thesis
    by (simp add: run_task_def mode_chain_cases split: sum.splits)
next
  case (devices_fetched devs)
  then show ?thesis
    using discoverDevices_resume_untouched [of T loc "(devs, s)"]
    by (simp add: run_task_def untouched_by_discovery_def)
qed

lemma run_task_defined:
  "securitySystemState s \<noteq> None \<Longrightarrow> securitySystemState (run_task plugin T loc t s) \<noteq> None"
  by (auto simp add: run_task_securitySystemState updateLocationMode_def Let_def
        split: Task.splits sum.splits)

text \<open>What a step appends to the effects, bounded by a predicate \<open>ok\<close> on effects.\<close>

lemma discover_device_appends:
  assumes "\<And>msg. ok (console_debug msg)"
  shows "\<exists>es. effects (snd (discover_device T loc d a)) = effects (snd a) @ es \<and> list_all ok es"
  by (cases a) (simp add: discover_device_def Let_def assms split: option.splits)

lemma fold_discover_device_appends:
  assumes "\<And>msg. ok (console_debug msg)"
  shows "\<exists>es. effects (snd (fold (discover_device T loc) lds a)) = effects (snd a) @ es
           \<and> list_all ok es"
proof (induction lds arbitrary: a)
  case Nil
  then show ?case by simp
next
  case (Cons d lds)
  have "\<exists>es. effects (snd (discover_device T loc d a)) = effects (snd a) @ es \<and> list_all ok es"
    by (rule discover_device_appends) (fact assms)
  then obtain es where es: "effects (snd (discover_device T loc d a)) = effects (snd a) @ es"
    "list_all ok es"
    by blast
  obtain es' where es':
    "effects (snd (fold (discover_device T loc) lds (discover_device T loc d a)))
       = effects (snd (discover_device T loc d a)) @ es'" "list_all ok es'"
    using Cons.IH by blast
  from es es' show ?case
    by (intro exI [of _ "es @ es'"]) simp
qed

lemma discoverDevices_resume_appends:
  assumes "\<And>msg. ok (console_debug msg)" and "\<And>p ds. ok (onDevicesChanged p ds)"
  shows "\<exists>es. effects (snd (discoverDevices_resume T loc acc)) = effects (snd acc) @ es
           \<and> list_all ok es"
proof (cases "getDevices loc")
  case (Inl e)
  then show ?thesis by (simp add: discoverDevices_resume_def)
next
  case (Inr lds)
  have "\<exists>es. effects (snd (fold (discover_device T loc) lds acc)) = effects (snd acc) @ es
          \<and> list_all ok es"
    by (rule fold_discover_device_appends) (fact assms(1))
  then obtain es where
    "effects (snd (fold (discover_device T loc) lds acc)) = effects (snd acc) @ es"
    "list_all ok es"
    by blast
  with Inr show ?thesis
    by (intro exI [of _ "es @ [onDevicesChanged (location_id loc)
                                 (fst (fold (discover_device T loc) lds acc))]"])
       (simp add: discoverDevices_resume_def split_def assms(2))
qed

lemma discoverDevices_resume_result:
  "fst (discoverDevices_resume T loc acc)
     = (case getDevices loc of Inl e \<Rightarrow> Inl e | Inr lds \<Rightarrow> Inr ())"
  by (simp add: discoverDevices_resume_def split_def split: sum.splits)

lemma run_task_appends:
  assumes "\<And>msg. ok (console_debug msg)" and "\<And>p ds. ok (onDevicesChanged p ds)"
    and "\<And>e. getLocationMode loc = Inl e \<Longrightarrow> ok (UnhandledRejection e)"
    and "\<And>e. getDevices loc = Inl e \<Longrightarrow> ok (UnhandledRejection e)"
    and "\<And>panel. getSecurityPanel loc = Inr panel \<Longrightarrow> ok (Subscribed panel_onData)"
  shows "\<exists>es. effects (run_task plugin T loc t s) = effects s @ es \<and> list_all ok es"
proof (cases t)
  case panel_settled
  then show ?thesis
    by (cases "getSecurityPanel loc")
       (simp_all add: run_task_def panel_chain_rejected panel_chain_fulfilled
          unawaited_effects assms(5))
next
  case mode_fetched
  then show ?thesis
    by (cases "getLocationMode loc")
       (simp_all add: run_task_def mode_chain_cases unawaited_effects assms(3))
next
  case (devices_fetched devs)
  have "\<exists>es. effects (snd (discoverDevices_resume T loc (devs, s)))
              = effects (snd (devs, s)) @ es \<and> list_all ok es"
    by (rule discoverDevices_resume_appends) (fact assms(1,2))+
  then obtain es where es:
    "effects (snd (discoverDevices_resume T loc (devs, s))) = effects s @ es" "list_all ok es"
    by auto
  show ?thesis
  proof (cases "getDevices loc")
    case (Inl e)
    with es devices_fetched show ?thesis
      by (intro exI [of _ "es @ [UnhandledRejection e]"])
         (simp add: run_task_def unawaited_effects discoverDevices_resume_result assms(4))
  next
    case (Inr lds)
    with es devices_fetched show ?thesis
      by (intro exI [of _ es])
         (simp add: run_task_def unawaited_effects discoverDevices_resume_result)
  qed
qed

lemma fold_run_task_appends:
  assumes "\<And>msg. ok (console_debug msg)" and "\<And>p ds. ok (onDevicesChanged p ds)"
    and "\<And>e. getLocationMode loc = Inl e \<Longrightarrow> ok (UnhandledRejection e)"
    and "\<And>e. getDevices loc = Inl e \<Longrightarrow> ok (UnhandledRejection e)"
    and "\<And>panel. getSecurityPanel loc = Inr panel \<Longrightarrow> ok (Subscribed panel_onData)"
  shows "\<exists>es. effects (fold (run_task plugin T loc) ts s) = effects s @ es \<and> list_all ok es"
proof (induction ts arbitrary: s)
  case Nil
  then show ?case by simp
next
  case (Cons t ts)
  have "\<exists>es. effects (run_task plugin T loc t s) = effects s @ es \<and> list_all ok es"
    by (rule run_task_appends) (fact assms)+
  then obtain es where es: "effects (run_task plugin T loc t s) = effects s @ es" "list_all ok es"
    by blast
  obtain es' where es':
    "effects (fold (run_task plugin T loc) ts (run_task plugin T loc t s))
       = effects (run_task plugin T loc t s) @ es'" "list_all ok es'"
    using Cons.IH by blast
  from es es' show ?case
    by (intro exI [of _ "es @ es'"]) simp
qed

text \<open>
  Claim C7. If the security panel of the location cannot be resolved, the chain that
  the constructor hangs on the panel promise ends fulfilled and has done nothing: no
  console output, no rejection left unhandled, no subscription to the panel feed. The
  subscription to the mode feed is the first thing the constructor does, and the
  finished controller is subscribed to the mode feed and not to the panel feed. A
  rejection that does stay unhandled comes from the mode query or from the
  enumeration of the devices, never from the panel.
\<close>

theorem panel_failure_is_absorbed:
  assumes "getSecurityPanel loc = Inl e"
  shows "panel_chain loc s = (Inr (), s)
     \<and> run_task plugin T loc panel_settled s = s
     \<and> hd (effects (fst (constructor_body plugin loc stored))) = Subscribed onLocationMode
     \<and> Subscribed onLocationMode \<in> set (effects (constructed plugin T loc stored schedule))
     \<and> Subscribed panel_onData \<notin> set (effects (constructed plugin T loc stored schedule))
     \<and> (\<forall>e'. UnhandledRejection e' \<in> set (effects (constructed plugin T loc stored schedule))
             \<longrightarrow> getLocationMode loc = Inl e' \<or> getDevices loc = Inl e')"
proof -
  define ok where "ok x = (x \<noteq> Subscribed panel_onData
      \<and> (\<forall>e'. x = UnhandledRejection e' \<longrightarrow> getLocationMode loc = Inl e' \<or> getDevices loc = Inl e'))"
    for x
  have "\<exists>es. effects (fold (run_task plugin T loc)
                       (schedule (snd (constructor_body plugin loc stored)))
                       (fst (constructor_body plugin loc stored)))
              = effects (fst (constructor_body plugin loc stored)) @ es \<and> list_all ok es"
    by (rule fold_run_task_appends) (simp_all add: ok_def assms)
  then obtain es where es:
    "effects (constructed plugin T loc stored schedule)
       = effects (fst (constructor_body plugin loc stored)) @ es" "list_all ok es"
    by (auto simp add: constructed_def split_def)
  have chain: "panel_chain loc s = (Inr (), s)"
    using assms by (rule panel_chain_rejected)
  have task: "run_task plugin T loc panel_settled s = s"
    by (simp add: run_task_def chain unawaited_def)
  have first: "hd (effects (fst (constructor_body plugin loc stored))) = Subscribed onLocationMode"
    by (simp add: constructor_body_effects)
  from es have "Subscribed onLocationMode \<in> set (effects (constructed plugin T loc stored schedule))"
    by (simp add: constructor_body_effects)
  moreover from es have "Subscribed panel_onData \<notin> set (effects (constructed plugin T loc stored schedule))"
    by (auto simp add: constructor_body_effects ok_def list_all_iff)
  moreover from es have "\<forall>e'. UnhandledRejection e' \<in> set (effects (constructed plugin T loc stored schedule))
             \<longrightarrow> getLocationMode loc = Inl e' \<or> getDevices loc = Inl e'"
    by (auto simp add: constructor_body_effects ok_def list_all_iff)
  ultimately show ?thesis using chain task first by blast
qed

theorem panel_failure_is_absorbed_witness:
  "getSecurityPanel sensor_location = Inl (VendorError ''Could not find a security panel'')
   \<and> panel_chain sensor_location (new_RingLocationDevice None)
       = (Inr (), new_RingLocationDevice None)
   \<and> Subscribed onLocationMode
       \<in> set (effects (constructed night_home ring_types sensor_location None id))
   \<and> Subscribed panel_onData
       \<notin> set (effects (constructed night_home ring_types sensor_location None id))"
proof -
  have failed:
    "getSecurityPanel sensor_location = Inl (VendorError ''Could not find a security panel'')"
    by (simp add: sensor_location_def)
  from panel_failure_is_absorbed
         [OF failed, where s = "new_RingLocationDevice None" and plugin = night_home
            and T = ring_types and stored = None and schedule = id]
    failed
  show ?thesis by simp
qed

text \<open>
  Claim C3, as the code has it. With a base station the constructor asks the vendor
  for the current mode once. The test for a missing snapshot is part of the
  constructor's body, so it runs before the answer can have been applied: the
  snapshot is forced to Disarmed exactly when none exists once the mode feed has been
  subscribed (none held by the host, none delivered on subscription). The answer is
  applied later by a pending continuation, which overwrites the snapshot when the
  query succeeded. From the end of the constructor's body on the snapshot is defined.
\<close>

theorem constructor_with_base_station:
  assumes "hasAlarmBaseStation loc"
  shows "securitySystemState (fst (constructor_body plugin loc stored)) \<noteq> None
     \<and> filter (\<lambda>e. e = VendorQuery ''getLocationMode'')
          (effects (fst (constructor_body plugin loc stored)))
         = [VendorQuery ''getLocationMode'']
     \<and> filter (\<lambda>t. t = mode_fetched) (snd (constructor_body plugin loc stored))
         = [mode_fetched]
     \<and> securitySystemState (fst (constructor_body plugin loc stored))
         = (case securitySystemState
                   (fold (updateLocationMode plugin) (onLocationMode_replay loc)
                      (new_RingLocationDevice stored)) of
              None \<Rightarrow> Some \<lparr>mode = Disarmed, triggered = False,
                             supportedModes =
                               [Disarmed, AwayArmed, HomeArmed]
                               @ (if nightModeBypassAlarmState plugin \<noteq> ''Disabled''
                                  then [NightArmed] else [])\<rparr>
            | Some snapshot \<Rightarrow> Some snapshot)
     \<and> (\<forall>m. getLocationMode loc = Inr m
            \<longrightarrow> securitySystemState (run_task plugin T loc mode_fetched s)
                = securitySystemState (updateLocationMode plugin m s))
     \<and> securitySystemState (constructed plugin T loc stored schedule) \<noteq> None"
proof -
  have forced: "securitySystemState (updateLocationMode plugin ''disabled'' s')
      = Some \<lparr>mode = Disarmed, triggered = False,
               supportedModes = [Disarmed, AwayArmed, HomeArmed]
                 @ (if nightModeBypassAlarmState plugin \<noteq> ''Disabled''
                    then [NightArmed] else [])\<rparr>" for s'
    by (simp add: updateLocationMode_def Let_def)
  have body: "securitySystemState (fst (constructor_body plugin loc stored))
         = (case securitySystemState
                   (fold (updateLocationMode plugin) (onLocationMode_replay loc)
                      (new_RingLocationDevice stored)) of
              None \<Rightarrow> Some \<lparr>mode = Disarmed, triggered = False,
                             supportedModes =
                               [Disarmed, AwayArmed, HomeArmed]
                               @ (if nightModeBypassAlarmState plugin \<noteq> ''Disabled''
                                  then [NightArmed] else [])\<rparr>
            | Some snapshot \<Rightarrow> Some snapshot)"
    using assms
    by (simp add: constructor_body_securitySystemState Let_def forced split: option.splits)
  then have defined: "securitySystemState (fst (constructor_body plugin loc stored)) \<noteq> None"
    by (simp split: option.splits)
  have "securitySystemState
          (fold (run_task plugin T loc) ts (fst (constructor_body plugin loc stored))) \<noteq> None"
    for ts
    by (rule fold_invariant [where Q = "\<lambda>s. securitySystemState s \<noteq> None"])
       (simp_all add: run_task_defined defined)
  then have settled: "securitySystemState (constructed plugin T loc stored schedule) \<noteq> None"
    by (simp add: constructed_def split_def)
  have once: "filter (\<lambda>e. e = VendorQuery ''getLocationMode'')
          (effects (fst (constructor_body plugin loc stored)))
         = [VendorQuery ''getLocationMode'']"
    using assms by (simp add: constructor_body_effects)
  have pending: "filter (\<lambda>t. t = mode_fetched) (snd (constructor_body plugin loc stored))
         = [mode_fetched]"
    using assms by (simp add: constructor_body_tasks)
  have applied: "\<forall>m. getLocationMode loc = Inr m
            \<longrightarrow> securitySystemState (run_task plugin T loc mode_fetched s)
                = securitySystemState (updateLocationMode plugin m s)"
    by (simp add: run_task_securitySystemState)
  from defined once pending body applied settled show ?thesis by blast
qed

theorem constructor_with_base_station_witness:
  "hasAlarmBaseStation sensor_location
   \<and> securitySystemState (fst (constructor_body night_home sensor_location None))
       = Some \<lparr>mode = Disarmed, triggered = False,
               supportedModes = [Disarmed, AwayArmed, HomeArmed, NightArmed]\<rparr>
   \<and> securitySystemState (constructed night_home ring_types sensor_location None id) \<noteq> None"
proof -
  have base: "hasAlarmBaseStation sensor_location"
    by (simp add: sensor_location_def)
  from constructor_with_base_station
         [OF base, where plugin = night_home and stored = None and T = ring_types
            and schedule = id]
    base
  show ?thesis
    by (simp add: sensor_location_def night_home_def new_RingLocationDevice_def)
qed

text \<open>
  Claim C3 as stated fails. Take a base station, no snapshot held by the host and a
  vendor that answers \<^verbatim>\<open>away\<close>. When the constructor's body ends the snapshot has
  already been forced to Disarmed while the continuation that applies the answer is
  still pending; once it has run the snapshot exists (it is AwayArmed). So the
  snapshot was forced although one exists after the fetched mode has been applied.
\<close>

theorem constructor_forces_before_fetched_mode:
  "hasAlarmBaseStation sensor_location
   \<and> getLocationMode sensor_location = Inr ''away''
   \<and> securitySystemState (fst (constructor_body night_home sensor_location None))
       = Some \<lparr>mode = Disarmed, triggered = False,
               supportedModes = [Disarmed, AwayArmed, HomeArmed, NightArmed]\<rparr>
   \<and> snd (constructor_body night_home sensor_location None)
       = [panel_settled, mode_fetched, devices_fetched []]
   \<and> securitySystemState
        (run_task night_home ring_types sensor_location mode_fetched
           (new_RingLocationDevice None))
       = Some \<lparr>mode = AwayArmed, triggered = False,
               supportedModes = [Disarmed, AwayArmed, HomeArmed, NightArmed]\<rparr>
   \<and> securitySystemState
        (run_task night_home ring_types sensor_location mode_fetched
           (fst (constructor_body night_home sensor_location None)))
       = Some \<lparr>mode = AwayArmed, triggered = False,
               supportedModes = [Disarmed, AwayArmed, HomeArmed, NightArmed]\<rparr>"
  by (simp add: constructor_body_securitySystemState constructor_body_tasks
        run_task_securitySystemState updateLocationMode_def Let_def
        discoverDevices_start_def
        sensor_location_def night_home_def new_RingLocationDevice_def)

subsection \<open>Facts about classification\<close>

lemma discover_device_location:
  "location_id loc = location_id loc'
     \<Longrightarrow> discover_device T loc d a = discover_device T loc' d a"
  by (cases a) (simp add: discover_device_def Let_def split: option.splits)

lemma discover_device_disabled:
  "status (device_data d) = ''disabled'' \<Longrightarrow> discover_device T loc d a = a"
  by (cases a) (simp add: discover_device_def Let_def)

lemma fold_filter_skipped:
  assumes "\<And>x a. \<not> keep x \<Longrightarrow> f x a = a"
  shows "fold f (filter keep xs) a = fold f xs a"
  by (induction xs arbitrary: a) (simp_all add: assms)




subsection \<open>Facts about a whole discovery\<close>

lemma discoverDevices_succeeds:
  assumes "getDevices loc = Inr lds"
  shows "fst (discoverDevices T loc s) = Inr ()"
    and "published (effects (snd (discoverDevices T loc s)))
           = published (effects s)
             @ [fst (fold (discover_device T loc) lds (discoverDevices_start loc s))]"
    and "MapData (locationDevices (snd (discoverDevices T loc s)))
           = MapData (locationDevices
                        (snd (fold (discover_device T loc) lds (discoverDevices_start loc s))))"
  using assms
  by (simp_all add: discoverDevices_def discoverDevices_resume_result
        discoverDevices_resume_published discoverDevices_start_effects)
     (simp add: discoverDevices_resume_def split_def)

subsection \<open>What a discovery describes and indexes\<close>

lemma discover_camera_described:
  "discover_camera loc c (devs, s)
     = (devs @ [camera_descriptor loc c],
        s\<lparr>locationDevices :=
            Map_set (locationDevices s) (toString (camera_id c)) (A_RingCamera c)\<rparr>)"
  by (simp add: discover_camera_def camera_descriptor_def Let_def)

lemma discover_device_described:
  "fst (discover_device T loc d a)
     = fst a @ (case device_descriptor T loc d of None \<Rightarrow> [] | Some dev \<Rightarrow> [dev])"
  "MapData (locationDevices (snd (discover_device T loc d a)))
     = (case device_descriptor T loc d of
          None \<Rightarrow> MapData (locationDevices (snd a))
        | Some dev \<Rightarrow>
            AList.update (nativeId dev) (A_RingDevice d) (MapData (locationDevices (snd a))))"
  by (cases a; simp add: discover_device_def device_descriptor_def Let_def Map_set_def
        split: option.splits)+

lemma discover_camera_projections:
  "fst (discover_camera loc c a) = fst a @ [camera_descriptor loc c]"
  "MapData (locationDevices (snd (discover_camera loc c a)))
     = AList.update (toString (camera_id c)) (A_RingCamera c)
         (MapData (locationDevices (snd a)))"
  by (cases a; simp add: discover_camera_described Map_set_def)+

lemma fold_discover_camera_described:
  "fst (fold (discover_camera loc) cs a) = fst a @ map (camera_descriptor loc) cs"
  "MapData (locationDevices (snd (fold (discover_camera loc) cs a)))
     = fold (\<lambda>kv al. AList.update (fst kv) (snd kv) al)
         (map (\<lambda>c. (toString (camera_id c), A_RingCamera c)) cs)
         (MapData (locationDevices (snd a)))"
proof -
  show "fst (fold (discover_camera loc) cs a) = fst a @ map (camera_descriptor loc) cs"
    by (induction cs arbitrary: a) (simp_all add: discover_camera_projections)
  show "MapData (locationDevices (snd (fold (discover_camera loc) cs a)))
     = fold (\<lambda>kv al. AList.update (fst kv) (snd kv) al)
         (map (\<lambda>c. (toString (camera_id c), A_RingCamera c)) cs)
         (MapData (locationDevices (snd a)))"
    by (induction cs arbitrary: a) (simp_all add: discover_camera_projections)
qed

lemma fold_discover_device_described:
  "fst (fold (discover_device T loc) lds a)
     = fst a @ List.map_filter (device_descriptor T loc) lds"
  "MapData (locationDevices (snd (fold (discover_device T loc) lds a)))
     = fold (\<lambda>kv al. AList.update (fst kv) (snd kv) al)
         (List.map_filter
            (\<lambda>d. map_option (\<lambda>dev. (nativeId dev, A_RingDevice d)) (device_descriptor T loc d))
            lds)
         (MapData (locationDevices (snd a)))"
proof -
  show "fst (fold (discover_device T loc) lds a)
     = fst a @ List.map_filter (device_descriptor T loc) lds"
    by (induction lds arbitrary: a)
       (simp_all add: discover_device_described split: option.splits)
  show "MapData (locationDevices (snd (fold (discover_device T loc) lds a)))
     = fold (\<lambda>kv al. AList.update (fst kv) (snd kv) al)
         (List.map_filter
            (\<lambda>d. map_option (\<lambda>dev. (nativeId dev, A_RingDevice d)) (device_descriptor T loc d))
            lds)
         (MapData (locationDevices (snd a)))"
    by (induction lds arbitrary: a)
       (simp_all add: discover_device_described split: option.splits)
qed

lemma discovery_loops_described:
  "fst (fold (discover_device T loc) lds (discoverDevices_start loc s)) = descriptors T loc lds"
  "MapData (locationDevices (snd (fold (discover_device T loc) lds (discoverDevices_start loc s))))
     = Map_of_entries (index_entries T loc lds)"
  by (simp_all add: fold_discover_device_described discoverDevices_start_def split_def
        fold_discover_camera_described descriptors_def index_entries_def Map_of_entries_def
        Map_clear_def)

lemma map_of_Map_of_entries_aux:
  "map_of (fold (\<lambda>kv al. AList.update (fst kv) (snd kv) al) kvs al) = map_of (rev kvs @ al)"
  by (induction kvs arbitrary: al) (simp_all add: update_conv' fun_eq_iff map_add_def split: option.splits)

lemma map_of_Map_of_entries: "map_of (Map_of_entries kvs) = map_of (rev kvs)"
  by (simp add: Map_of_entries_def map_of_Map_of_entries_aux)

lemma keys_Map_of_entries_aux:
  "fst ` set (fold (\<lambda>kv al. AList.update (fst kv) (snd kv) al) kvs al)
     = fst ` set kvs \<union> fst ` set al"
  by (induction kvs arbitrary: al) (auto simp add: dom_update)


lemma discoverDevices_described:
  assumes "getDevices loc = Inr lds"
  shows "fst (discoverDevices T loc s) = Inr ()"
    and "effects (snd (discoverDevices T loc s)) \<noteq> []"
    and "last (effects (snd (discoverDevices T loc s)))
           = onDevicesChanged (location_id loc) (descriptors T loc lds)"
    and "published (effects (snd (discoverDevices T loc s)))
           = published (effects s) @ [descriptors T loc lds]"
    and "MapData (locationDevices (snd (discoverDevices T loc s)))
           = Map_of_entries (index_entries T loc lds)"
  using assms discoverDevices_succeeds [OF assms, of T s]
  by (simp_all add: discovery_loops_described)
     (simp_all add: discoverDevices_def discoverDevices_resume_def split_def
        discovery_loops_described)

text \<open>
  Claim C2, as the code has it. A generic device record whose status is \<^verbatim>\<open>disabled\<close>
  contributes nothing to a discovery: the loop body leaves the descriptor list, the
  index and the effects as they are, the record has no descriptor, and the whole
  discovery is the one that the enumeration without the disabled records gives. The
  loop over the cameras reads no status: every camera of the location gets its
  descriptor, which does not depend on the camera's status, and the list handed to
  the host starts with the descriptors of all cameras, followed by those of the
  devices that are not disabled.
\<close>

theorem discoverDevices_skips_disabled_devices:
  "(status (device_data d) = ''disabled''
      \<longrightarrow> discover_device T loc d acc = acc \<and> device_descriptor T loc d = None)
   \<and> (getDevices loc = Inr lds
        \<longrightarrow> discoverDevices T loc s
            = discoverDevices T
                (loc\<lparr>getDevices :=
                       Inr (filter (\<lambda>d. status (device_data d) \<noteq> ''disabled'') lds)\<rparr>) s)
   \<and> (getDevices loc = Inr lds
        \<longrightarrow> published (effects (snd (discoverDevices T loc s)))
            = published (effects s)
              @ [map (camera_descriptor loc) (cameras loc)
                 @ List.map_filter (device_descriptor T loc)
                     (filter (\<lambda>d. status (device_data d) \<noteq> ''disabled'') lds)])
   \<and> fst (discover_camera loc c (devs, s)) = devs @ [camera_descriptor loc c]
   \<and> camera_descriptor loc (c\<lparr>camera_data := (camera_data c)\<lparr>camera_status := st\<rparr>\<rparr>)
       = camera_descriptor loc c"
proof -
  let ?enabled = "filter (\<lambda>d. status (device_data d) \<noteq> ''disabled'')"
  let ?loc' = "loc\<lparr>getDevices := Inr (?enabled lds)\<rparr>"
  have start: "discoverDevices_start ?loc' s = discoverDevices_start loc s"
  proof -
    have "discover_camera ?loc' = discover_camera loc"
      by (rule ext)+ (simp add: discover_camera_def Let_def split_def)
    then show ?thesis by (simp add: discoverDevices_start_def)
  qed
  have body: "discover_device T ?loc' = discover_device T loc"
    by (rule ext)+ (rule discover_device_location, simp)
  have "fold (discover_device T loc) (?enabled lds) a = fold (discover_device T loc) lds a" for a
    by (rule fold_filter_skipped) (simp add: discover_device_disabled)
  then have without: "getDevices loc = Inr lds
        \<longrightarrow> discoverDevices T loc s = discoverDevices T ?loc' s"
    by (simp add: discoverDevices_def discoverDevices_resume_def start body)
  have "status (device_data x) = ''disabled'' \<Longrightarrow> device_descriptor T loc x = None" for x
    by (simp add: device_descriptor_def)
  then have "List.map_filter (device_descriptor T loc) (?enabled lds)
          = List.map_filter (device_descriptor T loc) lds"
    by (induction lds) (auto split: option.splits)
  then have list: "getDevices loc = Inr lds
        \<longrightarrow> published (effects (snd (discoverDevices T loc s)))
            = published (effects s)
              @ [map (camera_descriptor loc) (cameras loc)
                 @ List.map_filter (device_descriptor T loc) (?enabled lds)]"
    by (simp add: discoverDevices_described(4) descriptors_def)
  have camera: "fst (discover_camera loc c (devs, s)) = devs @ [camera_descriptor loc c]"
    by (simp add: discover_camera_described)
  have no_status:
    "camera_descriptor loc (c\<lparr>camera_data := (camera_data c)\<lparr>camera_status := st\<rparr>\<rparr>)
       = camera_descriptor loc c"
    by (simp add: camera_descriptor_def)
  have skipped: "status (device_data d) = ''disabled''
      \<longrightarrow> discover_device T loc d acc = acc \<and> device_descriptor T loc d = None"
    by (simp add: discover_device_disabled device_descriptor_def)
  from skipped without list camera no_status show ?thesis by blast
qed

theorem discoverDevices_skips_disabled_devices_witness:
  "status (device_data (sensor ''S4'' ''sensor.motion'' ''disabled'' False)) = ''disabled''
   \<and> getDevices (camera_location\<lparr>getDevices :=
         Inr [S1, sensor ''S4'' ''sensor.motion'' ''disabled'' False]\<rparr>)
       = Inr [S1, sensor ''S4'' ''sensor.motion'' ''disabled'' False]
   \<and> discoverDevices ring_types
        (camera_location\<lparr>getDevices :=
           Inr [S1, sensor ''S4'' ''sensor.motion'' ''disabled'' False]\<rparr>)
        (new_RingLocationDevice None)
      = discoverDevices ring_types
          (camera_location\<lparr>getDevices := Inr [S1]\<rparr>) (new_RingLocationDevice None)
   \<and> map (map nativeId)
        (published (effects (snd (discoverDevices ring_types
           (camera_location\<lparr>getDevices :=
              Inr [S1, sensor ''S4'' ''sensor.motion'' ''disabled'' False]\<rparr>)
           (new_RingLocationDevice None)))))
      = [[''12'', ''S1-sensor'']]"
proof -
  let ?S4 = "sensor ''S4'' ''sensor.motion'' ''disabled'' False"
  let ?loc = "camera_location\<lparr>getDevices := Inr [S1, ?S4]\<rparr>"
  have disabled: "status (device_data ?S4) = ''disabled''"
    by (simp add: sensor_def)
  have enumerated: "getDevices ?loc = Inr [S1, ?S4]"
    by simp
  have enabled: "filter (\<lambda>d. status (device_data d) \<noteq> ''disabled'') [S1, ?S4] = [S1]"
    by (simp add: sensor_def S1_def)
  have ids: "map nativeId (map (camera_descriptor ?loc) (cameras ?loc)
               @ List.map_filter (device_descriptor ring_types ?loc) [S1])
             = [''12'', ''S1-sensor'']"
    by (simp add: camera_descriptor_def device_descriptor_def switch_deviceType_def Let_def
          camera_location_def front_door_def S1_def sensor_def ring_types_def toString.simps)
  note skips = discoverDevices_skips_disabled_devices
         [where d = ?S4 and T = ring_types and loc = ?loc and lds = "[S1, ?S4]"
            and s = "new_RingLocationDevice None" and acc = "([], new_RingLocationDevice None)"
            and c = "front_door ''disabled''" and devs = "[]" and st = "''ok''"]
  from skips enumerated
  have same: "discoverDevices ring_types ?loc (new_RingLocationDevice None)
      = discoverDevices ring_types
          (?loc\<lparr>getDevices :=
                  Inr (filter (\<lambda>d. status (device_data d) \<noteq> ''disabled'') [S1, ?S4])\<rparr>)
          (new_RingLocationDevice None)"
    by blast
  from skips enumerated
  have "published (effects (snd (discoverDevices ring_types ?loc (new_RingLocationDevice None))))
      = published (effects (new_RingLocationDevice None))
        @ [map (camera_descriptor ?loc) (cameras ?loc)
           @ List.map_filter (device_descriptor ring_types ?loc)
               (filter (\<lambda>d. status (device_data d) \<noteq> ''disabled'') [S1, ?S4])]"
    by blast
  then have handed:
    "map (map nativeId)
       (published (effects (snd (discoverDevices ring_types ?loc (new_RingLocationDevice None)))))
      = [[''12'', ''S1-sensor'']]"
    unfolding enabled using ids by (simp add: new_RingLocationDevice_def)
  from same have "discoverDevices ring_types ?loc (new_RingLocationDevice None)
      = discoverDevices ring_types (camera_location\<lparr>getDevices := Inr [S1]\<rparr>)
          (new_RingLocationDevice None)"
    unfolding enabled by simp
  with disabled enumerated handed show ?thesis by blast
qed

text \<open>
  Claim C2 as stated fails on the cameras. The only record of this location is a
  camera whose status is \<^verbatim>\<open>disabled\<close>, and its descriptor is handed to the host.
\<close>

theorem discoverDevices_publishes_disabled_camera:
  "camera_status (camera_data (front_door ''disabled'')) = ''disabled''
   \<and> cameras camera_location = [front_door ''disabled'']
   \<and> published (effects (snd (discoverDevices ring_types camera_location
                                  (new_RingLocationDevice None))))
       = [[\<lparr>info = \<lparr>info_model = ''Doorbell (doorbell_v3)'', info_manufacturer = ''Ring'',
                     info_firmware = Some ''1.0'', info_serialNumber = Some ''abc''\<rparr>,
            providerNativeId = ''loc'', nativeId = ''12'', name = ''Front Door'',
            type = DT_Doorbell,
            interfaces = [IF_Camera, IF_MotionSensor, IF_RTCSignalingChannel,
                          IF_VideoCamera, IF_Intercom, IF_VideoClips, IF_Battery,
                          IF_BinarySensor]\<rparr>]]"
  by (simp add: discoverDevices_def discoverDevices_resume_def discoverDevices_start_def
        discover_camera_def Let_def camera_location_def front_door_def
        new_RingLocationDevice_def new_Map_def Map_clear_def Map_set_def emit_def
        toString.simps)

text \<open>
  Claim C6. With the cameras and the enumerated devices of the location fixed, a
  discovery succeeds and hands the host, in one call that is the last thing it does,
  the full descriptor list: the descriptor of every camera, then the descriptor of
  every enumerated device that has one. A second discovery hands over the same list
  (the same descriptors in the same order, hence the same set). The index a discovery
  leaves is the one that setting every described record under the identifier of its
  descriptor builds from an empty index, so that an identifier leads to the record
  described last under it and to nothing if no record is described under it; it does
  not depend on the state the discovery started from, and nothing of an earlier index
  survives.
\<close>

theorem discoverDevices_twice:
  assumes "getDevices loc = Inr lds"
  shows "fst (discoverDevices T loc s) = Inr ()
     \<and> fst (discoverDevices T loc (snd (discoverDevices T loc s))) = Inr ()
     \<and> published (effects (snd (discoverDevices T loc s)))
         = published (effects s) @ [descriptors T loc lds]
     \<and> published (effects (snd (discoverDevices T loc (snd (discoverDevices T loc s)))))
         = published (effects s) @ [descriptors T loc lds, descriptors T loc lds]
     \<and> last (effects (snd (discoverDevices T loc s)))
         = onDevicesChanged (location_id loc) (descriptors T loc lds)
     \<and> MapData (locationDevices (snd (discoverDevices T loc s)))
         = Map_of_entries (index_entries T loc lds)
     \<and> MapData (locationDevices (snd (discoverDevices T loc (snd (discoverDevices T loc s)))))
         = Map_of_entries (index_entries T loc lds)
     \<and> Map_get (locationDevices (snd (discoverDevices T loc s))) n
         = map_of (rev (index_entries T loc lds)) n
     \<and> nativeId ` set (descriptors T loc lds)
         = fst ` set (MapData (locationDevices (snd (discoverDevices T loc s))))"
proof -
  let ?s1 = "snd (discoverDevices T loc s)"
  note run = discoverDevices_described [OF assms, of T]
  have second: "published (effects (snd (discoverDevices T loc ?s1)))
         = published (effects s) @ [descriptors T loc lds, descriptors T loc lds]"
    by (simp add: run(4))
  have lookup: "Map_get (locationDevices ?s1) n = map_of (rev (index_entries T loc lds)) n"
    by (simp add: Map_get_def run(5) map_of_Map_of_entries)
  have "map fst (List.map_filter
            (\<lambda>d. map_option (\<lambda>dev. (nativeId dev, A_RingDevice d)) (device_descriptor T loc d))
            lds)
          = map nativeId (List.map_filter (device_descriptor T loc) lds)"
    by (induction lds) (auto split: option.splits)
  moreover have "nativeId (camera_descriptor loc c) = toString (camera_id c)" for c
    by (simp add: camera_descriptor_def)
  ultimately have "map fst (index_entries T loc lds) = map nativeId (descriptors T loc lds)"
    by (simp add: index_entries_def descriptors_def comp_def)
  then have "set (map fst (index_entries T loc lds)) = set (map nativeId (descriptors T loc lds))"
    by simp
  then have "fst ` set (index_entries T loc lds) = nativeId ` set (descriptors T loc lds)"
    by simp
  then have keys: "nativeId ` set (descriptors T loc lds)
         = fst ` set (MapData (locationDevices ?s1))"
    by (simp add: run(5) Map_of_entries_def keys_Map_of_entries_aux)
  from run(1) [of s] run(1) [of ?s1] run(4) [of s] second run(3) [of s] run(5) [of s]
    run(5) [of ?s1] lookup keys
  show ?thesis by blast
qed

theorem discoverDevices_twice_witness:
  "getDevices sensor_location = Inr [S1, S2, S3]
   \<and> map (map nativeId)
       (published (effects (snd (discoverDevices ring_types sensor_location
                                   (new_RingLocationDevice None)))))
      = [[''S1-sensor'', ''S2-sensor'', ''S3-sensor'']]
   \<and> MapData (locationDevices
        (snd (discoverDevices ring_types sensor_location
               (snd (discoverDevices ring_types sensor_location
                       (new_RingLocationDevice None))))))
      = [(''S1-sensor'', A_RingDevice S1), (''S2-sensor'', A_RingDevice S2),
         (''S3-sensor'', A_RingDevice S3)]"
proof -
  have fixed: "getDevices sensor_location = Inr [S1, S2, S3]"
    by (simp add: sensor_location_def)
  have list: "map nativeId (descriptors ring_types sensor_location [S1, S2, S3])
      = [''S1-sensor'', ''S2-sensor'', ''S3-sensor'']"
    by (simp add: descriptors_def device_descriptor_def switch_deviceType_def Let_def
          sensor_location_def S1_def S2_def S3_def sensor_def ring_types_def)
  have index: "Map_of_entries (index_entries ring_types sensor_location [S1, S2, S3])
      = [(''S1-sensor'', A_RingDevice S1), (''S2-sensor'', A_RingDevice S2),
         (''S3-sensor'', A_RingDevice S3)]"
    by (simp add: Map_of_entries_def index_entries_def device_descriptor_def
          switch_deviceType_def Let_def sensor_location_def S1_def S2_def S3_def sensor_def
          ring_types_def)
  from discoverDevices_twice
         [OF fixed, where T = ring_types and s = "new_RingLocationDevice None"]
    fixed list index
  show ?thesis
    by (simp add: new_RingLocationDevice_def)
qed

subsection \<open>Facts about the cache\<close>

lemma update_fresh: "k \<notin> fst ` set al \<Longrightarrow> AList.update k v al = al @ [(k, v)]"
  by (induction al) auto

lemma cache_consistent_lookup:
  assumes "cache_consistent s"
  shows "Map_has (devices s) n = (n \<in> set (map instance_nativeId (instances s)))"
    and "Map_get (devices s) n = Some i
           \<Longrightarrow> i < length (instances s) \<and> instance_nativeId (instances s ! i) = n
               \<and> instance_class (instances s ! i) = class_for n"
proof -
  let ?ks = "map instance_nativeId (instances s)"
  let ?is = "[0..<length (instances s)]"
  have data: "MapData (devices s) = zip ?ks ?is"
    using assms by (simp add: cache_consistent_def)
  show "Map_has (devices s) n = (n \<in> set ?ks)"
    by (simp add: Map_has_def data map_of_zip_is_None [of ?ks ?is n])
  assume "Map_get (devices s) n = Some i"
  then have "(n, i) \<in> set (zip ?ks ?is)"
    by (simp add: Map_get_def data map_of_SomeD)
  then obtain j where j: "j < length (instances s)" "?ks ! j = n" "?is ! j = i"
    by (auto simp add: set_zip)
  then have "i = j" by simp
  with j assms show "i < length (instances s) \<and> instance_nativeId (instances s ! i) = n
               \<and> instance_class (instances s ! i) = class_for n"
    by (auto simp add: cache_consistent_def list_all_length)
qed

lemma cache_consistent_store:
  assumes "cache_consistent s" and "\<not> Map_has (devices s) n" and "c = class_for n"
  shows "cache_consistent
           ((snd (construct c n d s))
              \<lparr>devices := Map_set (devices s) n (fst (construct c n d s))\<rparr>)"
proof -
  let ?ks = "map instance_nativeId (instances s)"
  let ?is = "[0..<length (instances s)]"
  have data: "MapData (devices s) = zip ?ks ?is"
    using assms(1) by (simp add: cache_consistent_def)
  have fresh: "n \<notin> set ?ks"
    using cache_consistent_lookup(1) [OF assms(1), of n] assms(2) by simp
  then have "n \<notin> fst ` set (zip ?ks ?is)"
    by (auto dest: set_zip_leftD)
  then have "AList.update n (length (instances s)) (zip ?ks ?is)
               = zip ?ks ?is @ [(n, length (instances s))]"
    by (rule update_fresh)
  with assms fresh show ?thesis
    by (simp add: cache_consistent_def construct_def Map_set_def data)
qed

lemma getDevice_cases:
  "getDevice camera_throws n s
     = (if Map_has (devices s) n then (Inr (Map_get (devices s) n), s)
        else if (class_for n \<noteq> RingCameraDevice \<and> Map_get (locationDevices s) n = None)
        then (Inl (TypeError ''Cannot read properties of undefined (reading onData)''), s)
        else if class_for n = RingCameraDevice
                \<and> camera_throws n (Map_get (locationDevices s) n) \<noteq> None
        then (Inl (the (camera_throws n (Map_get (locationDevices s) n))), s)
        else (Inr (Some (length (instances s))),
              (snd (construct (class_for n) n (Map_get (locationDevices s) n) s))
                \<lparr>devices := Map_set (devices s) n (length (instances s))\<rparr>))"
  by (auto simp add: getDevice_def store_device_def new_RingSensor_def new_RingLock_def
        new_RingCameraDevice_def class_for_def split_def Map_get_def Map_set_def
        update_conv' construct_def
        split: option.splits sum.splits)

lemma getDevice_consistent:
  "cache_consistent s \<Longrightarrow> cache_consistent (snd (getDevice camera_throws n s))"
  using cache_consistent_store [of s n "class_for n" "Map_get (locationDevices s) n"]
  by (auto simp add: getDevice_cases)

text \<open>In every state of a run the cache is consistent and the index has no own
  property.\<close>

lemma reachable_invariant:
  "reachable s \<Longrightarrow> cache_consistent s \<and> ownProperties (locationDevices s) = []"
proof (induction rule: reachable.induct)
  case (after_constructor plugin loc stored)
  have start: "devices (snd (discoverDevices_start loc s)) = devices s
      \<and> instances (snd (discoverDevices_start loc s)) = instances s
      \<and> ownProperties (locationDevices (snd (discoverDevices_start loc s)))
          = ownProperties (locationDevices s)" for s
    using discoverDevices_start_untouched [of loc s] by (simp add: untouched_by_discovery_def)
  show ?case
    by (simp add: cache_consistent_def constructor_body_def Let_def split_def start
          new_RingLocationDevice_def new_Map_def)
next
  case (after_task s plugin T loc t)
  have "untouched_by_discovery (run_task plugin T loc t s)
          = (securitySystemState (run_task plugin T loc t s), devices s, instances s,
             ownProperties (locationDevices s))"
  proof (cases t)
    case panel_settled
    then show ?thesis
      by (simp add: untouched_by_discovery_def run_task_def panel_chain_def
            promise_then_def promise_catch_def split: sum.splits)
  next
    case mode_fetched
    then show ?thesis
      by (simp add: untouched_by_discovery_def run_task_def mode_chain_cases
            split: sum.splits)
  next
    case (devices_fetched devs)
    then show ?thesis
      using discoverDevices_resume_untouched [of T loc "(devs, s)"]
      by (simp add: untouched_by_discovery_def run_task_def)
  qed
  with after_task.IH show ?case
    by (simp add: untouched_by_discovery_def cache_consistent_def)
next
  case (after_mode_feed s plugin f)
  then show ?case by (simp add: cache_consistent_def)
next
  case (after_panel_feed s plugin loc)
  then show ?case
    by (simp add: cache_consistent_def on_panel_data_def mode_chain_cases split: sum.splits)
next
  case (after_discovery_start s loc)
  with discoverDevices_start_untouched [of loc s] show ?case
    by (simp add: untouched_by_discovery_def cache_consistent_def)
next
  case (after_discovery s T loc)
  with discoverDevices_untouched [of T loc s] show ?case
    by (simp add: untouched_by_discovery_def cache_consistent_def)
next
  case (after_getDevice s camera_throws n)
  then show ?case
    by (simp add: getDevice_consistent getDevice_fields)
next
  case (after_releaseDevice s ident n)
  then show ?case by (simp add: releaseDevice_def)
next
  case (after_arm s plugin T loc m)
  then show ?case
    by (simp add: cache_consistent_def armSecuritySystem_fields)
next
  case (after_disarm s loc)
  then show ?case
    by (simp add: cache_consistent_def disarmSecuritySystem_fields)
qed

lemma reachable_constructed: "reachable (constructed plugin T loc stored schedule)"
proof -
  have "reachable (fold (run_task plugin T loc) ts (fst (constructor_body plugin loc stored)))"
    for ts
    by (rule fold_invariant [where Q = reachable])
       (simp_all add: reachable.after_task reachable.after_constructor)
  then show ?thesis by (simp add: constructed_def split_def)
qed

lemma sensors_discovered_index:
  "MapData (locationDevices sensors_discovered)
     = [(''S1-sensor'', A_RingDevice S1), (''S2-sensor'', A_RingDevice S2),
        (''S3-sensor'', A_RingDevice S3)]"
  "devices sensors_discovered = new_Map"
  "instances sensors_discovered = []"
  by (simp_all add: sensors_discovered_def constructed_def constructor_body_def
        discoverDevices_start_def discoverDevices_resume_def run_task_def
        panel_chain_def mode_chain_def promise_then_def promise_catch_def unawaited_def
        discover_device_def switch_deviceType_def Let_def split_def
        Map_set_def Map_clear_def new_Map_def new_RingLocationDevice_def
        sensor_location_def ring_types_def S1_def S2_def S3_def sensor_def)

text \<open>In a run the index never has an own property, so \<^verbatim>\<open>Object.values\<close> of it is empty
  and so is the bypass list.\<close>

lemma night_bypass_list:
  assumes "reachable s"
  shows "armSecuritySystem plugin T loc NightArmed s
           = send loc (if nightModeBypassAlarmState plugin = ''Away''
                       then armAway (Some []) else armHome (Some [])) s"
  using reachable_invariant [OF assms]
  by (simp add: armSecuritySystem_def Object_values_def SecuritySystemMode_defs)

text \<open>
  Claim C1 holds for the choice between the two vendor commands and fails for the
  bypass list. The controller of \<open>sensor_location\<close> knows the faulted sensors \<open>S1\<close> and
  \<open>S2\<close> and the sensor \<open>S3\<close> that is not faulted: filtering the entries of its index
  gives the bypass list of \<open>S1\<close> and \<open>S2\<close>. \<^verbatim>\<open>armSecuritySystem\<close> filters
  \<^verbatim>\<open>Object.values\<close> of the index, which is a \<^verbatim>\<open>Map\<close> and has no own property, and sends
  the arm-home command with an empty bypass list.
\<close>

theorem armSecuritySystem_night_sends_empty_bypass_list:
  "map LocationDevice_id
     (filter (bypass_filter ring_types) (Map_values (locationDevices sensors_discovered)))
     = [''S1'', ''S2'']
   \<and> armSecuritySystem night_home ring_types sensor_location NightArmed sensors_discovered
       = (Inr (), emit (VendorCall (armHome (Some []))) sensors_discovered)
   \<and> armSecuritySystem \<lparr>nightModeBypassAlarmState = ''Away''\<rparr> ring_types sensor_location
         NightArmed sensors_discovered
       = (Inr (), emit (VendorCall (armAway (Some []))) sensors_discovered)"
proof -
  have "reachable sensors_discovered"
    by (simp add: sensors_discovered_def reachable_constructed)
  then have "armSecuritySystem plugin ring_types sensor_location NightArmed sensors_discovered
           = send sensor_location (if nightModeBypassAlarmState plugin = ''Away''
                       then armAway (Some []) else armHome (Some [])) sensors_discovered"
    for plugin
    by (rule night_bypass_list)
  then show ?thesis
    by (simp add: send_def sensor_location_def night_home_def
          Map_values_def sensors_discovered_index bypass_filter_def LocationDevice_id_def
          ring_types_def S1_def S2_def S3_def sensor_def)
qed

text \<open>What holds once a call of \<^verbatim>\<open>getDevice\<close> has returned.\<close>

lemma getDevice_returned:
  assumes "reachable s" and "getDevice camera_throws n s = (Inr r, s')"
  shows "getDevice camera_throws n s' = (Inr r, s')
     \<and> Map_get (devices s') n = r
     \<and> (\<exists>i. r = Some i \<and> i < length (instances s')
            \<and> instance_nativeId (instances s' ! i) = n
            \<and> instance_class (instances s' ! i)
                = (if endsWith n ''-sensor'' then RingSensor
                   else if endsWith n ''-lock'' then RingLock else RingCameraDevice))
     \<and> (if Map_has (devices s) n then s' = s
         else instances s'
                = instances s
                  @ [\<lparr>instance_class = (if endsWith n ''-sensor'' then RingSensor
                                         else if endsWith n ''-lock'' then RingLock
                                         else RingCameraDevice),
                       instance_nativeId = n,
                       instance_device = Map_get (locationDevices s) n\<rparr>])
     \<and> distinct (map instance_nativeId (instances s'))"
proof -
  have "reachable (snd (getDevice camera_throws n s))"
    using assms(1) by (rule reachable.after_getDevice)
  then have consistent: "cache_consistent s'"
    using reachable_invariant assms(2) by fastforce
  have stored: "Map_has (devices s') n \<and> r = Map_get (devices s') n"
    using assms(2)
    by (auto simp add: getDevice_cases Map_has_def Map_get_def Map_set_def update_conv'
          split: if_splits) metis
  then have again: "getDevice camera_throws n s' = (Inr r, s')"
    by (simp add: getDevice_cases)
  from stored obtain i where i: "r = Some i"
    by (auto simp add: Map_has_def Map_get_def)
  with stored cache_consistent_lookup(2) [OF consistent, of n i]
  have found: "i < length (instances s') \<and> instance_nativeId (instances s' ! i) = n
      \<and> instance_class (instances s' ! i) = class_for n"
    by simp
  have built: "if Map_has (devices s) n then s' = s
         else instances s'
                = instances s
                  @ [\<lparr>instance_class = class_for n, instance_nativeId = n,
                       instance_device = Map_get (locationDevices s) n\<rparr>]"
    using assms(2) by (auto simp add: getDevice_cases split: if_splits)
  from consistent have different: "distinct (map instance_nativeId (instances s'))"
    by (simp add: cache_consistent_def)
  from i found have the_instance: "\<exists>i. r = Some i \<and> i < length (instances s')
            \<and> instance_nativeId (instances s' ! i) = n
            \<and> instance_class (instances s' ! i)
                = (if endsWith n ''-sensor'' then RingSensor
                   else if endsWith n ''-lock'' then RingLock else RingCameraDevice)"
    by (simp add: class_for_def)
  from built have the_construction: "if Map_has (devices s) n then s' = s
         else instances s'
                = instances s
                  @ [\<lparr>instance_class = (if endsWith n ''-sensor'' then RingSensor
                                         else if endsWith n ''-lock'' then RingLock
                                         else RingCameraDevice),
                       instance_nativeId = n,
                       instance_device = Map_get (locationDevices s) n\<rparr>]"
    by (simp add: class_for_def)
  from stored have "Map_get (devices s') n = r"
    by simp
  with again the_instance the_construction different show ?thesis
    by blast
qed

text \<open>
  Claim C5, as the code has it. Take any run of the controller and an identifier that
  the cache holds or that can be constructed: an identifier with the suffix
  \<^verbatim>\<open>-sensor\<close> or \<^verbatim>\<open>-lock\<close> that the index holds, or another identifier for which the
  constructor of the camera device returns. Then \<^verbatim>\<open>getDevice\<close> returns an instance, and
  a second call with the same identifier returns the same reference and changes
  nothing. The instance is stored in the cache under the identifier, carries the
  identifier and belongs to the class that the suffix selects; the first call
  constructed it, from the index entry of the identifier, exactly when the cache did
  not hold the identifier. No two instances ever carry the same identifier.
\<close>

theorem getDevice_same_instance:
  assumes "reachable s"
    and "Map_has (devices s) n
         \<or> (if endsWith n ''-sensor'' \<or> endsWith n ''-lock''
            then Map_has (locationDevices s) n
            else camera_throws n (Map_get (locationDevices s) n) = None)"
  shows "\<exists>i s'. getDevice camera_throws n s = (Inr (Some i), s')
     \<and> getDevice camera_throws n s' = (Inr (Some i), s')
     \<and> Map_get (devices s') n = Some i
     \<and> i < length (instances s')
     \<and> instance_nativeId (instances s' ! i) = n
     \<and> instance_class (instances s' ! i)
         = (if endsWith n ''-sensor'' then RingSensor
            else if endsWith n ''-lock'' then RingLock else RingCameraDevice)
     \<and> (if Map_has (devices s) n then s' = s
         else i = length (instances s)
              \<and> instances s'
                  = instances s
                    @ [\<lparr>instance_class = (if endsWith n ''-sensor'' then RingSensor
                                           else if endsWith n ''-lock'' then RingLock
                                           else RingCameraDevice),
                         instance_nativeId = n,
                         instance_device = Map_get (locationDevices s) n\<rparr>])
     \<and> distinct (map instance_nativeId (instances s'))"
proof -
  have "\<exists>r. fst (getDevice camera_throws n s) = Inr r"
    using assms(2)
    by (auto simp add: getDevice_cases class_for_def Map_has_def Map_get_def
          split: if_splits)
  then obtain r s' where first: "getDevice camera_throws n s = (Inr r, s')"
    by (metis prod.collapse)
  note returned = getDevice_returned [OF assms(1) first]
  from returned obtain i where i: "r = Some i" "i < length (instances s')"
    "instance_nativeId (instances s' ! i) = n"
    "instance_class (instances s' ! i)
       = (if endsWith n ''-sensor'' then RingSensor
          else if endsWith n ''-lock'' then RingLock else RingCameraDevice)"
    by blast
  from returned i(1) have again: "getDevice camera_throws n s' = (Inr (Some i), s')"
    by simp
  from returned i(1) have stored: "Map_get (devices s') n = Some i"
    by simp
  have fresh: "\<not> Map_has (devices s) n \<Longrightarrow> i = length (instances s)"
    using first i(1) by (auto simp add: getDevice_cases split: if_splits)
  from first i again stored fresh returned show ?thesis
    by (intro exI [of _ i] exI [of _ s']) (simp split: if_splits)
qed

theorem getDevice_same_instance_witness:
  "reachable sensors_discovered
   \<and> (Map_has (devices sensors_discovered) ''S1-sensor''
      \<or> (if endsWith ''S1-sensor'' ''-sensor'' \<or> endsWith ''S1-sensor'' ''-lock''
         then Map_has (locationDevices sensors_discovered) ''S1-sensor''
         else (\<lambda>n d. None) ''S1-sensor''
                (Map_get (locationDevices sensors_discovered) ''S1-sensor'') = None))
   \<and> fst (getDevice (\<lambda>n d. None) ''S1-sensor'' sensors_discovered) = Inr (Some 0)
   \<and> getDevice (\<lambda>n d. None) ''S1-sensor''
         (snd (getDevice (\<lambda>n d. None) ''S1-sensor'' sensors_discovered))
       = (Inr (Some 0), snd (getDevice (\<lambda>n d. None) ''S1-sensor'' sensors_discovered))
   \<and> map instance_class
        (instances (snd (getDevice (\<lambda>n d. None) ''S1-sensor'' sensors_discovered)))
       = [RingSensor]"
proof -
  have run: "reachable sensors_discovered"
    by (simp add: sensors_discovered_def reachable_constructed)
  have known: "Map_has (devices sensors_discovered) ''S1-sensor''
      \<or> (if endsWith ''S1-sensor'' ''-sensor'' \<or> endsWith ''S1-sensor'' ''-lock''
         then Map_has (locationDevices sensors_discovered) ''S1-sensor''
         else (\<lambda>n d. None) ''S1-sensor''
                (Map_get (locationDevices sensors_discovered) ''S1-sensor'') = None)"
    by (simp add: sensors_discovered_index Map_has_def endsWith_def)
  have absent: "\<not> Map_has (devices sensors_discovered) ''S1-sensor''"
    by (simp add: sensors_discovered_index Map_has_def new_Map_def)
  from getDevice_same_instance [OF run known] run known absent
  show ?thesis
    by (auto simp add: sensors_discovered_index endsWith_def)
qed

text \<open>
  Claim C5 as stated fails for an identifier with the suffix \<^verbatim>\<open>-sensor\<close> that neither
  the cache nor the index holds: the constructor of the sensor throws, the call
  returns no instance and stores none, and so does the next call.
\<close>

theorem getDevice_unknown_sensor_throws:
  "getDevice (\<lambda>n d. None) ''S9-sensor'' sensors_discovered
     = (Inl (TypeError ''Cannot read properties of undefined (reading onData)''),
        sensors_discovered)
   \<and> getDevice (\<lambda>n d. None) ''S9-sensor''
        (snd (getDevice (\<lambda>n d. None) ''S9-sensor'' sensors_discovered))
     = (Inl (TypeError ''Cannot read properties of undefined (reading onData)''),
        sensors_discovered)"
  by (simp add: getDevice_cases sensors_discovered_index Map_has_def Map_get_def
        new_Map_def class_for_def endsWith_def)

end
